theory Spec2Isabelle
  imports Main "HOL-Library.Word"
begin

unbundle bit_operations_syntax

section \<open>The FIEMAP stressor (stress-fiemap.c)\<close>

text \<open>
  The stressor forks \<open>MAX_FIEMAP_PROCS\<close> children that loop over the FIEMAP ioctl
  (\<open>stress_fiemap_ioctl\<close>) while the parent writes single bytes and punches holes in the
  same file (\<open>stress_fiemap_writer\<close>). Every function of the file is embedded as a HOL
  function. What a system call, the pseudo random generator or \<open>keep_stressing\<close>
  returns is read from an environment value that scripts these results; what the
  function does to the outside world is returned as the list of its actions, in program
  order.

  \<open>uint64_t\<close> is \<open>64 word\<close>; \<open>unsigned long\<close> is taken to be 64 bits wide, so that
  \<open>~0x1fffUL\<close> is \<open>NOT 0x1fff\<close> and \<open>~0UL\<close> is \<open>NOT 0\<close> on \<open>64 word\<close>. The fields
  \<open>instance\<close> and \<open>num_instances\<close> of \<open>stress_args_t\<close> are taken to be \<open>uint32_t\<close>.
  Calls without a result that the file looks at and without an effect on the file, the
  counters or the processes (\<open>stress_strnrnd\<close>, \<open>stress_parent_died_alarm\<close>,
  \<open>sched_settings_apply\<close>, \<open>stress_mwc_reseed\<close>, \<open>stress_temp_filename_args\<close>) are
  left out of the action lists.
\<close>

subsection \<open>Constants, error numbers, exit statuses\<close>

abbreviation MAX_FIEMAP_PROCS :: nat where "MAX_FIEMAP_PROCS \<equiv> 4"
abbreviation COUNT_MAX :: int where "COUNT_MAX \<equiv> 128"

type_synonym errno = int

abbreviation EINTR :: errno where "EINTR \<equiv> 4"
abbreviation EAGAIN :: errno where "EAGAIN \<equiv> 11"
abbreviation ENOSPC :: errno where "ENOSPC \<equiv> 28"
abbreviation EOPNOTSUPP :: errno where "EOPNOTSUPP \<equiv> 95"

text \<open>
  A call that returns \<open>-1\<close> and sets \<open>errno\<close> is \<open>Some errno\<close>; a call that
  succeeds is \<open>None\<close>.
\<close>

type_synonym sysret = "errno option"

text \<open>
  Modelled from the spec: the exit statuses of a run (section 6: success, generic failure,
  resource exhaustion, not implemented). \<open>EXIT_NO_RESOURCE\<close> and
  \<open>EXIT_NOT_IMPLEMENTED\<close> are macros of stress-ng.h, which is not part of the sources.
\<close>

datatype exit_code = EXIT_SUCCESS | EXIT_FAILURE | EXIT_NO_RESOURCE | EXIT_NOT_IMPLEMENTED

text \<open>
  What stress-ng.h and the build configuration fix: the size macros, the function
  \<open>exit_status\<close> (errno to exit status) and whether \<open>FALLOC_FL_PUNCH_HOLE\<close> and
  \<open>FALLOC_FL_KEEP_SIZE\<close> are defined. They are parameters of the model.
\<close>

record platform =
  MIN_FIEMAP_SIZE :: "64 word"
  DEFAULT_FIEMAP_SIZE :: "64 word"
  MAXIMIZED_FILE_SIZE :: "64 word"
  exit_status :: "errno \<Rightarrow> exit_code"
  have_punch_hole :: bool

text \<open>The fields of \<open>stress_args_t\<close> that the file reads.\<close>

record stress_args =
  args_instance :: "32 word"
  args_num_instances :: "32 word"

text \<open>
  The fields of \<open>struct fiemap\<close> that the program writes or that the kernel reports back.
  An ioctl that fails is \<open>Inl errno\<close>; one that succeeds is \<open>Inr m\<close>, where \<open>m\<close> is the
  value the kernel left in \<open>fm_mapped_extents\<close>.
\<close>

record fiemap =
  fm_length :: "64 word"
  fm_mapped_extents :: "32 word"
  fm_extent_count :: "32 word"

type_synonym ioctl_ret = "errno + 32 word"

text \<open>A zeroed \<open>struct fiemap\<close> after \<open>fm_length = ~0UL\<close>.\<close>

definition fiemap_whole_file :: fiemap where
  "fiemap_whole_file = \<lparr>fm_length = NOT 0, fm_mapped_extents = 0, fm_extent_count = 0\<rparr>"

datatype proc_state = STRESS_STATE_RUN | STRESS_STATE_DEINIT

text \<open>
  The actions of a process. \<open>Counter_inc n\<close> is \<open>(*counter)++\<close> through the pointer
  \<open>&counters[n]\<close>; \<open>Set_counter v\<close> is \<open>set_counter(args, v)\<close>.
\<close>

datatype action =
    Lseek "64 word" sysret
  | Set_counter "64 word"
  | Write sysret
  | Usleep
  | Fallocate "64 word" sysret
  | Pr_fail
  | Pr_err
  | Pr_inf_skip
  | Close int
  | Calloc bool
  | Realloc bool
  | Free
  | Ioctl fiemap ioctl_ret
  | Counter_inc nat
  | Fdatasync
  | Mmap bool
  | Memset_counters
  | Temp_dir_mk int
  | Open_file "errno + int"
  | Unlink
  | Set_proc_state proc_state
  | Fork nat int
  | Setpgid
  | Exit_child exit_code
  | Kill int
  | Waitpid int
  | Temp_dir_rm
  | Munmap

text \<open>
  A run of the model stops without a result when the scripted environment has no entry
  left for the next loop iteration, or when the program divides by zero.
\<close>

datatype fault = Env_exhausted | Div_by_zero

subsection \<open>\<open>stress_fiemap_count\<close>\<close>

text \<open>
  The loop \<open>for (counter = 0, i = 0; i < MAX_FIEMAP_PROCS; i++) counter += counters[i]\<close>.
  \<open>counters i\<close> is the value that the read of \<open>counters[i]\<close> returns.
\<close>

function count_loop :: "(nat \<Rightarrow> 64 word) \<Rightarrow> nat \<Rightarrow> 64 word \<Rightarrow> 64 word" where
  "count_loop counters i counter =
     (if i < MAX_FIEMAP_PROCS then count_loop counters (Suc i) (counter + counters i)
      else counter)"
  by pat_completeness auto
termination
  by (relation "measure (\<lambda>(counters, i, counter). MAX_FIEMAP_PROCS - i)") auto

declare count_loop.simps [simp del]

record count_env =
  slot_reads :: "nat \<Rightarrow> 64 word"
  keep :: bool

definition stress_fiemap_count :: "count_env \<Rightarrow> action list \<times> bool" where
  "stress_fiemap_count ce = ([Set_counter (count_loop (slot_reads ce) 0 0)], keep ce)"

subsection \<open>\<open>stress_fiemap_writer\<close>\<close>

text \<open>What one iteration of the writer's loop gets from the outside.\<close>

record writer_env =
  mwc_a :: "64 word"
  lseek_ret :: sysret
  count_a :: count_env
  write_ret :: sysret
  count_b :: count_env
  mwc_b :: "64 word"
  fallocate_ret :: sysret
  count_c :: count_env
  keep_end :: bool

text \<open>
  How an iteration ends: \<open>Next\<close> reaches the loop condition (the end of the body or a
  \<open>continue\<close>), \<open>Break\<close> is \<open>break\<close>, \<open>Tidy\<close> is \<open>goto tidy\<close>.
\<close>

datatype flow = Next | Break | Tidy

text \<open>Lines 116 to 133: the hole punch, compiled in when \<open>have_punch_hole\<close>.\<close>

definition writer_punch ::
  "platform \<Rightarrow> 64 word \<Rightarrow> bool \<Rightarrow> writer_env \<Rightarrow> flow \<times> bool \<times> action list" where
  "writer_punch pf len punch_hole e =
     (if \<not> have_punch_hole pf then (Next, punch_hole, [])
      else if \<not> punch_hole then (Next, punch_hole, [])
      else
        let offset = mwc_b e mod len;
            acts = [Usleep, Fallocate offset (fallocate_ret e)]
        in if fallocate_ret e = Some ENOSPC then (Next, punch_hole, acts)
           else
             let punch_hole' = (if fallocate_ret e = Some EOPNOTSUPP then False else punch_hole);
                 (cacts, k) = stress_fiemap_count (count_c e)
             in if \<not> k then (Break, punch_hole', acts @ [Usleep] @ cacts)
                else (Next, punch_hole', acts @ [Usleep] @ cacts))"

text \<open>Lines 105 to 115: the write of the probe byte and the count after it.\<close>

definition writer_write ::
  "platform \<Rightarrow> 64 word \<Rightarrow> bool \<Rightarrow> writer_env \<Rightarrow> flow \<times> bool \<times> action list" where
  "writer_write pf len punch_hole e =
     (let acts = [Write (write_ret e)]
      in if write_ret e = Some ENOSPC then (Next, punch_hole, acts)
         else if write_ret e \<noteq> None \<and> write_ret e \<noteq> Some EAGAIN \<and> write_ret e \<noteq> Some EINTR
           then (Tidy, punch_hole, acts @ [Pr_fail])
         else
           let (cacts, k) = stress_fiemap_count (count_b e)
           in if \<not> k then (Break, punch_hole, acts @ cacts)
              else
                let (fl, punch_hole', pacts) = writer_punch pf len punch_hole e
                in (fl, punch_hole', acts @ cacts @ pacts))"

text \<open>Lines 98 to 104, then the rest of the body.\<close>

definition writer_body ::
  "platform \<Rightarrow> 64 word \<Rightarrow> bool \<Rightarrow> writer_env \<Rightarrow> fault + flow \<times> bool \<times> action list" where
  "writer_body pf len punch_hole e =
     (if len = 0 then Inl Div_by_zero
      else
        let offset = (mwc_a e mod len) AND NOT 0x1fff;
            acts = [Lseek offset (lseek_ret e)]
        in if lseek_ret e \<noteq> None then Inr (Break, punch_hole, acts)
           else
             let (cacts, k) = stress_fiemap_count (count_a e)
             in if \<not> k then Inr (Break, punch_hole, acts @ cacts)
                else
                  let (fl, punch_hole', wacts) = writer_write pf len punch_hole e
                  in Inr (fl, punch_hole', acts @ cacts @ wacts))"

text \<open>
  The \<open>do ... while (keep_stressing(args))\<close> loop, one environment entry for each
  iteration, with the exit status that the code after the loop gives.
\<close>

fun writer_loop ::
  "platform \<Rightarrow> 64 word \<Rightarrow> bool \<Rightarrow> writer_env list \<Rightarrow> fault + exit_code \<times> action list" where
  "writer_loop pf len punch_hole [] = Inl Env_exhausted"
| "writer_loop pf len punch_hole (e # es) =
     (case writer_body pf len punch_hole e of
        Inl f \<Rightarrow> Inl f
      | Inr (Tidy, punch_hole', acts) \<Rightarrow> Inr (EXIT_FAILURE, acts)
      | Inr (Break, punch_hole', acts) \<Rightarrow> Inr (EXIT_SUCCESS, acts)
      | Inr (Next, punch_hole', acts) \<Rightarrow>
          if keep_end e then
            (case writer_loop pf len punch_hole' es of
               Inl f \<Rightarrow> Inl f
             | Inr (rc, acts') \<Rightarrow> Inr (rc, acts @ acts'))
          else Inr (EXIT_SUCCESS, acts))"

definition stress_fiemap_writer ::
  "platform \<Rightarrow> int \<Rightarrow> 64 word \<Rightarrow> writer_env list \<Rightarrow> fault + exit_code \<times> action list" where
  "stress_fiemap_writer pf fd fiemap_bytes es =
     (case writer_loop pf (fiemap_bytes - 1) True es of
        Inl f \<Rightarrow> Inl f
      | Inr (rc, acts) \<Rightarrow> Inr (rc, acts @ [Close fd]))"

subsection \<open>\<open>stress_fiemap_ioctl\<close>\<close>

text \<open>What one iteration of the query loop gets from the outside.\<close>

record cycle_env =
  calloc_ok :: bool
  discover_ret :: ioctl_ret
  keep_mid :: bool
  realloc_ok :: bool
  populate_ret :: ioctl_ret
  keep_loop :: bool

text \<open>
  The body of the loop for the worker that was given \<open>&counters[n]\<close>, with the local
  \<open>c\<close>. The result says whether the loop condition is reached (\<open>False\<close> is
  \<open>break\<close>) and gives the new \<open>c\<close>.
\<close>

definition ioctl_body :: "stress_args \<Rightarrow> nat \<Rightarrow> int \<Rightarrow> cycle_env \<Rightarrow> bool \<times> int \<times> action list" where
  "ioctl_body args n c e =
     (if \<not> calloc_ok e then (False, c, [Calloc False, Pr_err])
      else
        let fm = fiemap_whole_file;
            acts = [Calloc True, Ioctl fm (discover_ret e)]
        in case discover_ret e of
             Inl err \<Rightarrow>
               if err = EOPNOTSUPP
               then (False, c,
                     acts @ (if args_instance args = 0 then [Pr_inf_skip] else []) @ [Free])
               else (False, c, acts @ [Pr_fail, Free])
           | Inr mapped \<Rightarrow>
               let fm = fm\<lparr>fm_mapped_extents := mapped\<rparr>
               in if \<not> keep_mid e then (False, c, acts @ [Free])
                  else if \<not> realloc_ok e then (False, c, acts @ [Realloc False, Pr_fail, Free])
                  else
                    let fm = fm\<lparr>fm_extent_count := fm_mapped_extents fm\<rparr>;
                        fm = fm\<lparr>fm_mapped_extents := 0\<rparr>;
                        acts = acts @ [Realloc True, Ioctl fm (populate_ret e)]
                    in (case populate_ret e of
                          Inl err \<Rightarrow> (False, c, acts @ [Pr_fail, Free])
                        | Inr mapped' \<Rightarrow>
                            let acts = acts @ [Free, Counter_inc n]
                            in if c > COUNT_MAX then (True, 0, acts @ [Fdatasync])
                               else (True, c + 1, acts)))"

fun ioctl_loop :: "stress_args \<Rightarrow> nat \<Rightarrow> int \<Rightarrow> cycle_env list \<Rightarrow> fault + action list" where
  "ioctl_loop args n c [] = Inl Env_exhausted"
| "ioctl_loop args n c (e # es) =
     (case ioctl_body args n c e of
        (False, c', acts) \<Rightarrow> Inr acts
      | (True, c', acts) \<Rightarrow>
          if keep_loop e then
            (case ioctl_loop args n c' es of
               Inl f \<Rightarrow> Inl f
             | Inr acts' \<Rightarrow> Inr (acts @ acts'))
          else Inr acts)"

text \<open>\<open>mwc32\<close> is the value of \<open>stress_mwc32()\<close> that initialises \<open>c\<close>.\<close>

definition stress_fiemap_ioctl ::
  "stress_args \<Rightarrow> nat \<Rightarrow> 32 word \<Rightarrow> cycle_env list \<Rightarrow> fault + action list" where
  "stress_fiemap_ioctl args n mwc32 es =
     ioctl_loop args n (uint (mwc32 mod word_of_int COUNT_MAX)) es"

subsection \<open>\<open>stress_fiemap_spawn\<close>\<close>

text \<open>
  \<open>pid\<close> is what \<open>fork()\<close> returns in the process that runs the function. In the
  parent the function returns \<open>Some\<close> of its return value. In the child (\<open>pid = 0\<close>) it
  runs the query loop and calls \<open>_exit\<close>, so it never returns: \<open>None\<close>.
\<close>

definition stress_fiemap_spawn ::
  "stress_args \<Rightarrow> nat \<Rightarrow> int \<Rightarrow> 32 word \<Rightarrow> cycle_env list \<Rightarrow> fault + int option \<times> action list" where
  "stress_fiemap_spawn args n pid mwc32 es =
     (if pid < 0 then Inr (Some (- 1), [Fork n pid])
      else if pid = 0 then
        (case stress_fiemap_ioctl args n mwc32 es of
           Inl f \<Rightarrow> Inl f
         | Inr acts \<Rightarrow> Inr (None, [Fork n pid, Setpgid] @ acts @ [Exit_child EXIT_SUCCESS]))
      else Inr (Some pid, [Fork n pid, Setpgid]))"

subsection \<open>\<open>stress_fiemap\<close>\<close>

record fiemap_env =
  setting :: "64 word option"
  opt_maximize :: bool
  opt_minimize :: bool
  mmap_ok :: bool
  temp_dir_mk_ret :: int
  open_fd :: int
  open_errno :: errno
  probe_ret :: ioctl_ret
  keep_spawn :: "nat \<Rightarrow> bool"
  fork_ret :: "nat \<Rightarrow> int"
  child_mwc32 :: "32 word"
  child_envs :: "cycle_env list"
  writer_envs :: "writer_env list"

text \<open>Lines 255 to 263: the configured size, or the default adjusted by the flags.\<close>

definition configured_fiemap_bytes :: "platform \<Rightarrow> fiemap_env \<Rightarrow> 64 word" where
  "configured_fiemap_bytes pf env =
     (case setting env of
        Some s \<Rightarrow> s
      | None \<Rightarrow>
          let fiemap_bytes = DEFAULT_FIEMAP_SIZE pf;
              fiemap_bytes = (if opt_maximize env then MAXIMIZED_FILE_SIZE pf else fiemap_bytes);
              fiemap_bytes = (if opt_minimize env then MIN_FIEMAP_SIZE pf else fiemap_bytes)
          in fiemap_bytes)"

text \<open>Lines 264 to 266: the share of one instance, at least the minimum.\<close>

definition instance_fiemap_bytes :: "platform \<Rightarrow> stress_args \<Rightarrow> 64 word \<Rightarrow> fault + 64 word" where
  "instance_fiemap_bytes pf args fiemap_bytes =
     (if args_num_instances args = 0 then Inl Div_by_zero
      else
        let fiemap_bytes = fiemap_bytes div ucast (args_num_instances args)
        in Inr (if fiemap_bytes < MIN_FIEMAP_SIZE pf then MIN_FIEMAP_SIZE pf else fiemap_bytes))"

text \<open>The labels \<open>clean\<close>, \<open>dir_clean\<close> and \<open>close_clean\<close>, and the loop after \<open>reap\<close>.\<close>

definition clean :: "action list" where
  "clean = [Set_proc_state STRESS_STATE_DEINIT, Munmap]"

definition dir_clean :: "action list" where
  "dir_clean = [Set_proc_state STRESS_STATE_DEINIT, Temp_dir_rm] @ clean"

definition close_clean :: "int \<Rightarrow> action list" where
  "close_clean fd = [Set_proc_state STRESS_STATE_DEINIT, Close fd] @ dir_clean"

definition reap :: "int list \<Rightarrow> int \<Rightarrow> action list" where
  "reap pids fd =
     [Set_proc_state STRESS_STATE_DEINIT] @ concat (map (\<lambda>p. [Kill p, Waitpid p]) pids)
       @ close_clean fd"

text \<open>
  The loop of lines 309 to 318. \<open>pids\<close> holds \<open>pids[0 .. n - 1]\<close>; the result says why the
  loop ended.
\<close>

datatype spawn_end = All_spawned | Stop_requested | Fork_failed | Was_child

function spawn_loop ::
  "stress_args \<Rightarrow> fiemap_env \<Rightarrow> nat \<Rightarrow> int list \<Rightarrow> action list
     \<Rightarrow> fault + spawn_end \<times> int list \<times> action list" where
  "spawn_loop args env n pids acts =
     (if n < MAX_FIEMAP_PROCS then
        if \<not> keep_spawn env n then Inr (Stop_requested, pids, acts)
        else
          (case stress_fiemap_spawn args n (fork_ret env n) (child_mwc32 env) (child_envs env) of
             Inl f \<Rightarrow> Inl f
           | Inr (None, sacts) \<Rightarrow> Inr (Was_child, pids, acts @ sacts)
           | Inr (Some pid, sacts) \<Rightarrow>
               if pid < 0 then Inr (Fork_failed, pids, acts @ sacts)
               else spawn_loop args env (Suc n) (pids @ [pid]) (acts @ sacts))
      else Inr (All_spawned, pids, acts))"
  by pat_completeness auto
termination
  by (relation "measure (\<lambda>(args, env, n, pids, acts). MAX_FIEMAP_PROCS - n)") auto

declare spawn_loop.simps [simp del]

text \<open>Lines 307 to 338: from \<open>STRESS_STATE_RUN\<close> to the return.\<close>

definition fiemap_run ::
  "platform \<Rightarrow> stress_args \<Rightarrow> fiemap_env \<Rightarrow> int \<Rightarrow> 64 word \<Rightarrow> action list
     \<Rightarrow> fault + exit_code \<times> action list" where
  "fiemap_run pf args env fd fiemap_bytes acts0 =
     (case spawn_loop args env 0 [] (acts0 @ [Set_proc_state STRESS_STATE_RUN]) of
        Inl f \<Rightarrow> Inl f
      | Inr (Was_child, pids, acts) \<Rightarrow> Inr (EXIT_SUCCESS, acts)
      | Inr (Stop_requested, pids, acts) \<Rightarrow> Inr (EXIT_SUCCESS, acts @ reap pids fd)
      | Inr (Fork_failed, pids, acts) \<Rightarrow> Inr (EXIT_FAILURE, acts @ reap pids fd)
      | Inr (All_spawned, pids, acts) \<Rightarrow>
          (case stress_fiemap_writer pf fd fiemap_bytes (writer_envs env) of
             Inl f \<Rightarrow> Inl f
           | Inr (rc, wacts) \<Rightarrow> Inr (rc, acts @ wacts @ reap pids fd)))"

definition stress_fiemap ::
  "platform \<Rightarrow> stress_args \<Rightarrow> fiemap_env \<Rightarrow> fault + exit_code \<times> action list" where
  "stress_fiemap pf args env =
     (case instance_fiemap_bytes pf args (configured_fiemap_bytes pf env) of
        Inl f \<Rightarrow> Inl f
      | Inr fiemap_bytes \<Rightarrow>
          if \<not> mmap_ok env then Inr (EXIT_NO_RESOURCE, [Mmap False, Pr_err])
          else
            let acts = [Mmap True, Memset_counters, Temp_dir_mk (temp_dir_mk_ret env)]
            in if temp_dir_mk_ret env < 0
               then Inr (exit_status pf (- temp_dir_mk_ret env), acts @ clean)
               else
                 let fd = open_fd env;
                     acts = acts @ [Open_file (if fd < 0 then Inl (open_errno env) else Inr fd)]
                 in if fd < 0
                    then Inr (exit_status pf (open_errno env), acts @ [Pr_fail] @ dir_clean)
                    else
                      let fm = fiemap_whole_file;
                          acts = acts @ [Unlink, Ioctl fm (probe_ret env)]
                      in (case probe_ret env of
                            Inl err \<Rightarrow>
                              let errno = EOPNOTSUPP
                              in if errno = EOPNOTSUPP
                                 then Inr (EXIT_NOT_IMPLEMENTED,
                                           acts @ (if args_instance args = 0 then [Pr_inf_skip] else [])
                                             @ close_clean fd)
                                 else fiemap_run pf args env fd fiemap_bytes acts
                          | Inr mapped \<Rightarrow> fiemap_run pf args env fd fiemap_bytes acts))"

subsection \<open>The shared counters\<close>

text \<open>
  The mapping \<open>counters\<close> is a memory of slots. The only action that writes a slot is
  \<open>(*counter)++\<close>.
\<close>

fun apply_action :: "action \<Rightarrow> (nat \<Rightarrow> 64 word) \<Rightarrow> (nat \<Rightarrow> 64 word)" where
  "apply_action (Counter_inc n) mem = mem(n := mem n + 1)"
| "apply_action a mem = mem"

text \<open>
  The processes run in parallel. As far as the slots are concerned, a run is a sequence of
  steps, each either the increment of worker \<open>n\<close> or the next step of the driver inside
  \<open>stress_fiemap_count\<close>: one read \<open>counter += counters[i]\<close> while \<open>i < MAX_FIEMAP_PROCS\<close>,
  then \<open>set_counter(args, counter)\<close>, after which the next call starts again from
  \<open>counter = 0, i = 0\<close>. \<open>published\<close> lists the values given to \<open>set_counter\<close>, the latest
  first.
\<close>

datatype sched = Worker nat | Driver

record shared =
  slots :: "nat \<Rightarrow> 64 word"
  cnt_i :: nat
  cnt_counter :: "64 word"
  published :: "64 word list"

fun step :: "sched \<Rightarrow> shared \<Rightarrow> shared" where
  "step (Worker n) s =
     (if n < MAX_FIEMAP_PROCS then s\<lparr>slots := apply_action (Counter_inc n) (slots s)\<rparr> else s)"
| "step Driver s =
     (if cnt_i s < MAX_FIEMAP_PROCS
      then s\<lparr>cnt_counter := cnt_counter s + slots s (cnt_i s), cnt_i := Suc (cnt_i s)\<rparr>
      else s\<lparr>published := cnt_counter s # published s, cnt_counter := 0, cnt_i := 0\<rparr>)"

text \<open>The state after \<open>memset(counters, 0, counters_sz)\<close>, before anything is spawned.\<close>

definition shared_init :: shared where
  "shared_init = \<lparr>slots = (\<lambda>i. 0), cnt_i = 0, cnt_counter = 0, published = []\<rparr>"

fun is_Worker :: "sched \<Rightarrow> bool" where
  "is_Worker (Worker n) = True"
| "is_Worker Driver = False"

subsection \<open>Predicates on actions\<close>

text \<open>
  Hole punch requests, and the lists of actions in which no request follows one that
  failed with \<open>EOPNOTSUPP\<close>.
\<close>

fun is_Fallocate :: "action \<Rightarrow> bool" where
  "is_Fallocate (Fallocate off r) = True"
| "is_Fallocate a = False"

fun punch_disabled_after_unsupported :: "action list \<Rightarrow> bool" where
  "punch_disabled_after_unsupported [] = True"
| "punch_disabled_after_unsupported (Fallocate off r # as) =
     (if r = Some EOPNOTSUPP then list_all (\<lambda>a. \<not> is_Fallocate a) as
      else punch_disabled_after_unsupported as)"
| "punch_disabled_after_unsupported (a # as) = punch_disabled_after_unsupported as"

fun is_unsupported_punch :: "action \<Rightarrow> bool" where
  "is_unsupported_punch (Fallocate off r) = (r = Some EOPNOTSUPP)"
| "is_unsupported_punch a = False"

text \<open>A write that failed with an error other than the three the writer tolerates.\<close>

fun is_fatal_write :: "action \<Rightarrow> bool" where
  "is_fatal_write (Write r) =
     (r \<noteq> None \<and> r \<noteq> Some ENOSPC \<and> r \<noteq> Some EAGAIN \<and> r \<noteq> Some EINTR)"
| "is_fatal_write a = False"

text \<open>Forks, and the file operations that only the driver makes.\<close>

fun is_Fork :: "action \<Rightarrow> bool" where
  "is_Fork (Fork n pid) = True"
| "is_Fork a = False"

fun is_driver_action :: "action \<Rightarrow> bool" where
  "is_driver_action (Lseek off r) = True"
| "is_driver_action (Write r) = True"
| "is_driver_action (Fallocate off r) = True"
| "is_driver_action a = False"

text \<open>
  The actions of the supervisor up to the probe when nothing fails before it, and the
  actions of forking the workers \<open>0\<close> to \<open>k - 1\<close> in the parent.
\<close>

definition setup_actions :: "fiemap_env \<Rightarrow> action list" where
  "setup_actions env =
     [Mmap True, Memset_counters, Temp_dir_mk (temp_dir_mk_ret env),
      Open_file (Inr (open_fd env)), Unlink, Ioctl fiemap_whole_file (probe_ret env)]"

definition forks :: "fiemap_env \<Rightarrow> nat \<Rightarrow> action list" where
  "forks env k = concat (map (\<lambda>j. [Fork j (fork_ret env j), Setpgid]) [0..<k])"

text \<open>The kinds of action that the loop of the writer can make.\<close>

fun is_writer_loop_action :: "action \<Rightarrow> bool" where
  "is_writer_loop_action (Lseek off r) = True"
| "is_writer_loop_action (Set_counter v) = True"
| "is_writer_loop_action (Write r) = True"
| "is_writer_loop_action Usleep = True"
| "is_writer_loop_action (Fallocate off r) = True"
| "is_writer_loop_action Pr_fail = True"
| "is_writer_loop_action a = False"

text \<open>
  The sum of the slots as a natural number, and the invariant of the shared state: the
  driver's partial sum is at most the sum of the slots it has read, and no published value
  exceeds what the call in progress will publish.
\<close>

definition slot_total :: "(nat \<Rightarrow> 64 word) \<Rightarrow> nat" where
  "slot_total mem = (\<Sum>j<MAX_FIEMAP_PROCS. unat (mem j))"

definition counters_inv :: "shared \<Rightarrow> bool" where
  "counters_inv s \<longleftrightarrow>
     cnt_i s \<le> MAX_FIEMAP_PROCS
   \<and> unat (cnt_counter s) \<le> (\<Sum>j<cnt_i s. unat (slots s j))
   \<and> (\<forall>p \<in> set (published s).
         unat p \<le> unat (cnt_counter s) + (\<Sum>j = cnt_i s..<MAX_FIEMAP_PROCS. unat (slots s j)))
   \<and> sorted (rev (published s))"


subsection \<open>An example environment\<close>

text \<open>
  A platform with the sizes of stress-ng.h (1 MB, 16 MB, 1 GB), a file of 64 MB shared by
  four instances, and environments in which every call succeeds unless said otherwise.
\<close>

definition example_platform :: platform where
  "example_platform =
     \<lparr>MIN_FIEMAP_SIZE = 1048576, DEFAULT_FIEMAP_SIZE = 16777216,
      MAXIMIZED_FILE_SIZE = 1073741824, exit_status = (\<lambda>e. EXIT_FAILURE),
      have_punch_hole = True\<rparr>"

definition example_count :: count_env where
  "example_count = \<lparr>slot_reads = (\<lambda>i. 5), keep = True\<rparr>"

definition example_iteration :: writer_env where
  "example_iteration =
     \<lparr>mwc_a = 123456789, lseek_ret = None, count_a = example_count, write_ret = None,
      count_b = example_count, mwc_b = 987654321, fallocate_ret = None,
      count_c = example_count, keep_end = True\<rparr>"

definition example_last :: writer_env where
  "example_last = example_iteration\<lparr>keep_end := False\<rparr>"

definition example_args :: stress_args where
  "example_args = \<lparr>args_instance = 0, args_num_instances = 4\<rparr>"

definition example_cycle :: cycle_env where
  "example_cycle =
     \<lparr>calloc_ok = True, discover_ret = Inr 3, keep_mid = True, realloc_ok = True,
      populate_ret = Inr 3, keep_loop = True\<rparr>"

definition example_env :: fiemap_env where
  "example_env =
     \<lparr>setting = Some 67108864, opt_maximize = False, opt_minimize = False, mmap_ok = True,
      temp_dir_mk_ret = 0, open_fd = 3, open_errno = 0, probe_ret = Inr 0,
      keep_spawn = (\<lambda>n. True), fork_ret = (\<lambda>n. 100 + int n), child_mwc32 = 7,
      child_envs = [example_cycle\<lparr>keep_loop := False\<rparr>], writer_envs = [example_last]\<rparr>"

definition example_env_fork_fails :: fiemap_env where
  "example_env_fork_fails = example_env\<lparr>fork_ret := (\<lambda>n. if n = 2 then - 1 else 100 + int n)\<rparr>"

definition example_env_no_fiemap :: fiemap_env where
  "example_env_no_fiemap = example_env\<lparr>probe_ret := Inl EOPNOTSUPP\<rparr>"

definition example_sched :: "sched list" where
  "example_sched =
     [Worker 0, Driver, Driver, Worker 0, Worker 3, Driver, Driver, Driver,
      Worker 3, Driver, Driver, Driver, Driver, Driver]"

section \<open>Properties of the writer\<close>

subsection \<open>Offsets\<close>

lemma offset_bound:
  fixes len :: "64 word"
  assumes "len \<noteq> 0"
  shows "(x mod len) AND m < len" and "x mod len < len"
proof -
  have "(x mod len) AND m \<le> x mod len"
    by (rule word_and_le2)
  moreover show "x mod len < len"
    using assms by (simp add: word_mod_less_divisor word_neq_0_conv)
  ultimately show "(x mod len) AND m < len" by simp
qed

lemma writer_punch_offsets:
  assumes "writer_punch pf len ph e = (fl, ph', acts)" and "len \<noteq> 0"
  shows "Lseek off r \<notin> set acts" and "Fallocate off r \<in> set acts \<Longrightarrow> off < len"
  using assms
  by (auto simp: writer_punch_def stress_fiemap_count_def Let_def offset_bound split: if_splits)

lemma writer_write_offsets:
  assumes w: "writer_write pf len ph e = (fl, ph', acts)" and len: "len \<noteq> 0"
  shows "Lseek off r \<notin> set acts" and "Fallocate off r \<in> set acts \<Longrightarrow> off < len"
proof -
  obtain pfl pph pacts where p: "writer_punch pf len ph e = (pfl, pph, pacts)"
    by (cases "writer_punch pf len ph e") auto
  note po = writer_punch_offsets [OF p len, of off r]
  show "Lseek off r \<notin> set acts"
    using w po(1)
    by (auto simp: writer_write_def stress_fiemap_count_def Let_def p split: if_splits)
  show "off < len" if "Fallocate off r \<in> set acts"
    using w po(2) that
    by (auto simp: writer_write_def stress_fiemap_count_def Let_def p split: if_splits)
qed

lemma writer_body_offsets:
  assumes b: "writer_body pf len ph e = Inr (fl, ph', acts)"
    and mem: "Lseek off r \<in> set acts \<or> Fallocate off r \<in> set acts"
  shows "off < len"
proof -
  from b have len: "len \<noteq> 0"
    by (auto simp: writer_body_def split: if_splits)
  obtain wfl wph wacts where w: "writer_write pf len ph e = (wfl, wph, wacts)"
    by (cases "writer_write pf len ph e") auto
  note wo = writer_write_offsets [OF w len, of off r]
  show ?thesis
    using b mem wo len
    by (auto simp: writer_body_def stress_fiemap_count_def Let_def w offset_bound split: if_splits)
qed

lemma writer_loop_offsets:
  "writer_loop pf len ph es = Inr (rc, acts) \<Longrightarrow>
   Lseek off r \<in> set acts \<or> Fallocate off r \<in> set acts \<Longrightarrow> off < len"
proof (induction es arbitrary: ph rc acts)
  case Nil
  then show ?case by simp
next
  case (Cons e es)
  from Cons.prems(1) obtain fl ph' bacts where body: "writer_body pf len ph e = Inr (fl, ph', bacts)"
    by (auto split: sum.splits)
  show ?case
  proof (cases "fl = Next \<and> keep_end e")
    case True
    with Cons.prems(1) body obtain acts' where
      rest: "writer_loop pf len ph' es = Inr (rc, acts')" and acts: "acts = bacts @ acts'"
      by (auto split: sum.splits)
    from Cons.prems(2) acts
    have "(Lseek off r \<in> set bacts \<or> Fallocate off r \<in> set bacts)
        \<or> (Lseek off r \<in> set acts' \<or> Fallocate off r \<in> set acts')"
      by auto
    then show ?thesis
      using writer_body_offsets [OF body] Cons.IH [OF rest] by blast
  next
    case False
    with Cons.prems(1) body have "acts = bacts"
      by (cases fl) (auto split: if_splits)
    then show ?thesis
      using writer_body_offsets [OF body] Cons.prems(2) by blast
  qed
qed

lemma writer_loop_not_div:
  "len \<noteq> 0 \<Longrightarrow> writer_loop pf len ph es \<noteq> Inl Div_by_zero"
proof (induction es arbitrary: ph)
  case Nil
  then show ?case by simp
next
  case (Cons e es)
  have "writer_body pf len ph e \<noteq> Inl Div_by_zero"
    using Cons.prems by (auto simp: writer_body_def Let_def split: prod.splits)
  then show ?case
    using Cons.IH [OF Cons.prems]
    by (auto split: sum.splits flow.splits)
qed

lemma len_pos:
  fixes b m :: "64 word"
  assumes "1 < m" "m \<le> b"
  shows "b - 1 \<noteq> 0"
proof
  assume "b - 1 = 0"
  then have "b = 1" by simp
  with assms show False by simp
qed

text \<open>
  C10. In every run of the writer on a length of at least \<open>MIN_FIEMAP_SIZE\<close>, itself
  above the one byte of the probe, the modulus \<open>len = fiemap_bytes - 1\<close> is not zero, the
  run never divides by zero, and every offset the writer seeks to (as every offset it
  punches at) is below \<open>fiemap_bytes - 1\<close>.
\<close>

theorem writer_offsets_below_len:
  assumes "1 < MIN_FIEMAP_SIZE pf" and "MIN_FIEMAP_SIZE pf \<le> fiemap_bytes"
  shows "fiemap_bytes - 1 \<noteq> 0
    \<and> stress_fiemap_writer pf fd fiemap_bytes es \<noteq> Inl Div_by_zero
    \<and> (\<forall>rc acts off r. stress_fiemap_writer pf fd fiemap_bytes es = Inr (rc, acts)
          \<longrightarrow> Lseek off r \<in> set acts \<or> Fallocate off r \<in> set acts
          \<longrightarrow> off < fiemap_bytes - 1)"
proof -
  have len: "fiemap_bytes - 1 \<noteq> 0"
    using assms by (rule len_pos)
  have nodiv: "stress_fiemap_writer pf fd fiemap_bytes es \<noteq> Inl Div_by_zero"
    using writer_loop_not_div [OF len, of pf True es]
    by (auto simp: stress_fiemap_writer_def split: sum.splits)
  have offs: "off < fiemap_bytes - 1"
    if "stress_fiemap_writer pf fd fiemap_bytes es = Inr (rc, acts)"
      and "Lseek off r \<in> set acts \<or> Fallocate off r \<in> set acts"
    for rc acts off r
  proof -
    from that(1) obtain lacts where
      l: "writer_loop pf (fiemap_bytes - 1) True es = Inr (rc, lacts)"
      and a: "acts = lacts @ [Close fd]"
      by (auto simp: stress_fiemap_writer_def split: sum.splits)
    from that(2) a have "Lseek off r \<in> set lacts \<or> Fallocate off r \<in> set lacts"
      by simp
    with l show ?thesis by (rule writer_loop_offsets)
  qed
  from len nodiv offs show ?thesis by blast
qed

theorem writer_offsets_below_len_witness:
  "1 < MIN_FIEMAP_SIZE example_platform
   \<and> MIN_FIEMAP_SIZE example_platform \<le> 16777216
   \<and> stress_fiemap_writer example_platform 3 16777216 [example_last] =
       Inr (EXIT_SUCCESS,
         [Lseek 6012928 None, Set_counter 20, Write None, Set_counter 20, Usleep,
          Fallocate 14575851 None, Usleep, Set_counter 20, Close 3])
   \<and> (6012928 :: 64 word) < 16777216 - 1
   \<and> (14575851 :: 64 word) < 16777216 - 1"
proof -
  have h1: "1 < MIN_FIEMAP_SIZE example_platform"
    by (simp add: example_platform_def)
  have h2: "MIN_FIEMAP_SIZE example_platform \<le> 16777216"
    by (simp add: example_platform_def)
  have run: "stress_fiemap_writer example_platform 3 16777216 [example_last] =
       Inr (EXIT_SUCCESS,
         [Lseek 6012928 None, Set_counter 20, Write None, Set_counter 20, Usleep,
          Fallocate 14575851 None, Usleep, Set_counter 20, Close 3])"
    by code_simp
  note t = writer_offsets_below_len [OF h1 h2, of 3 "[example_last]"]
  from t run have "(6012928 :: 64 word) < 16777216 - 1"
    by auto
  moreover from t run have "(14575851 :: 64 word) < 16777216 - 1"
    by auto
  ultimately show ?thesis using h1 h2 run by blast
qed

subsection \<open>Hole punching\<close>

lemma pdau_append:
  "punch_disabled_after_unsupported xs \<Longrightarrow> punch_disabled_after_unsupported ys \<Longrightarrow>
   (list_ex is_unsupported_punch xs \<longrightarrow> list_all (\<lambda>a. \<not> is_Fallocate a) ys) \<Longrightarrow>
   punch_disabled_after_unsupported (xs @ ys)"
  by (induction xs rule: punch_disabled_after_unsupported.induct) auto

lemma pdau_no_fallocate:
  "list_all (\<lambda>a. \<not> is_Fallocate a) xs \<Longrightarrow> punch_disabled_after_unsupported xs"
  by (induction xs rule: punch_disabled_after_unsupported.induct) auto

lemma pdau_split:
  "punch_disabled_after_unsupported acts \<Longrightarrow> acts = pre @ Fallocate off (Some EOPNOTSUPP) # post \<Longrightarrow>
   list_all (\<lambda>a. \<not> is_Fallocate a) post"
proof (induction pre arbitrary: acts)
  case Nil
  then show ?case by simp
next
  case (Cons a pre)
  then obtain acts' where a: "acts = a # acts'" and t: "acts' = pre @ Fallocate off (Some EOPNOTSUPP) # post"
    by auto
  have "punch_disabled_after_unsupported acts'"
  proof (cases a)
    case (Fallocate o' r')
    with Cons.prems(1) a t show ?thesis
      by (cases "r' = Some EOPNOTSUPP") (auto intro: pdau_no_fallocate)
  qed (use Cons.prems(1) a in auto)
  then show ?case using Cons.IH t by blast
qed



lemma writer_punch_trace:
  "writer_punch pf len ph e = (fl, ph', acts) \<Longrightarrow>
     punch_disabled_after_unsupported acts
   \<and> (\<not> ph \<longrightarrow> \<not> ph' \<and> list_all (\<lambda>a. \<not> is_Fallocate a) acts)
   \<and> (ph' \<longrightarrow> \<not> list_ex is_unsupported_punch acts)"
  by (auto simp: writer_punch_def stress_fiemap_count_def Let_def split: if_splits)


lemma writer_write_trace:
  assumes w: "writer_write pf len ph e = (fl, ph', acts)"
  shows "punch_disabled_after_unsupported acts
   \<and> (\<not> ph \<longrightarrow> \<not> ph' \<and> list_all (\<lambda>a. \<not> is_Fallocate a) acts)
   \<and> (ph' \<longrightarrow> \<not> list_ex is_unsupported_punch acts)"
proof -
  obtain pfl pph pacts where p: "writer_punch pf len ph e = (pfl, pph, pacts)"
    by (cases "writer_punch pf len ph e") auto
  note pt = writer_punch_trace [OF p]
  show ?thesis
    using w pt
    by (auto simp: writer_write_def stress_fiemap_count_def Let_def p split: if_splits)
qed

lemma writer_body_trace:
  assumes b: "writer_body pf len ph e = Inr (fl, ph', acts)"
  shows "punch_disabled_after_unsupported acts
   \<and> (\<not> ph \<longrightarrow> \<not> ph' \<and> list_all (\<lambda>a. \<not> is_Fallocate a) acts)
   \<and> (ph' \<longrightarrow> \<not> list_ex is_unsupported_punch acts)"
proof -
  obtain wfl wph wacts where w: "writer_write pf len ph e = (wfl, wph, wacts)"
    by (cases "writer_write pf len ph e") auto
  note wt = writer_write_trace [OF w]
  show ?thesis
    using b wt
    by (auto simp: writer_body_def stress_fiemap_count_def Let_def w split: if_splits)
qed

lemma writer_loop_trace:
  "writer_loop pf len ph es = Inr (rc, acts) \<Longrightarrow>
     punch_disabled_after_unsupported acts
   \<and> (\<not> ph \<longrightarrow> list_all (\<lambda>a. \<not> is_Fallocate a) acts)"
proof (induction es arbitrary: ph rc acts)
  case Nil
  then show ?case by simp
next
  case (Cons e es)
  from Cons.prems(1) obtain fl ph' bacts where body: "writer_body pf len ph e = Inr (fl, ph', bacts)"
    by (auto split: sum.splits)
  note b = writer_body_trace [OF body]
  show ?case
  proof (cases "fl = Next \<and> keep_end e")
    case True
    with Cons.prems(1) body obtain acts' where
      rest: "writer_loop pf len ph' es = Inr (rc, acts')" and acts: "acts = bacts @ acts'"
      by (auto split: sum.splits)
    note r = Cons.IH [OF rest]
    have "list_ex is_unsupported_punch bacts \<longrightarrow> list_all (\<lambda>a. \<not> is_Fallocate a) acts'"
      using b r by blast
    then have "punch_disabled_after_unsupported (bacts @ acts')"
      using b r by (intro pdau_append) blast+
    moreover have "\<not> ph \<longrightarrow> list_all (\<lambda>a. \<not> is_Fallocate a) (bacts @ acts')"
      using b r by simp
    ultimately show ?thesis using acts by simp
  next
    case False
    with Cons.prems(1) body have "acts = bacts"
      by (cases fl) (auto split: if_splits)
    then show ?thesis using b by simp
  qed
qed


text \<open>
  C6. In the actions of a run of the writer, no hole punch request follows one that failed
  with \<open>EOPNOTSUPP\<close>.
\<close>

theorem hole_punch_never_retried:
  assumes "stress_fiemap_writer pf fd fiemap_bytes es = Inr (rc, acts)"
    and "acts = pre @ Fallocate off (Some EOPNOTSUPP) # post"
  shows "\<forall>a \<in> set post. \<not> is_Fallocate a"
proof -
  from assms(1) obtain lacts where
    l: "writer_loop pf (fiemap_bytes - 1) True es = Inr (rc, lacts)"
    and a: "acts = lacts @ [Close fd]"
    by (auto simp: stress_fiemap_writer_def split: sum.splits)
  have "punch_disabled_after_unsupported lacts"
    using writer_loop_trace [OF l] by simp
  then have "punch_disabled_after_unsupported (lacts @ [Close fd])"
    by (intro pdau_append) simp_all
  then have "punch_disabled_after_unsupported acts"
    by (simp only: a)
  then have "list_all (\<lambda>a. \<not> is_Fallocate a) post"
    using assms(2) by (rule pdau_split)
  then show ?thesis by (simp add: list_all_iff)
qed

theorem hole_punch_never_retried_witness:
  "stress_fiemap_writer example_platform 3 16777216
       [example_iteration\<lparr>fallocate_ret := Some EOPNOTSUPP\<rparr>, example_iteration, example_last] =
     Inr (EXIT_SUCCESS,
       [Lseek 6012928 None, Set_counter 20, Write None, Set_counter 20, Usleep]
         @ Fallocate 14575851 (Some EOPNOTSUPP)
         # [Usleep, Set_counter 20,
            Lseek 6012928 None, Set_counter 20, Write None, Set_counter 20,
            Lseek 6012928 None, Set_counter 20, Write None, Set_counter 20, Close 3])
   \<and> list_all (\<lambda>a. \<not> is_Fallocate a)
        [Usleep, Set_counter 20,
         Lseek 6012928 None, Set_counter 20, Write None, Set_counter 20,
         Lseek 6012928 None, Set_counter 20, Write None, Set_counter 20, Close 3]"
proof -
  have run: "stress_fiemap_writer example_platform 3 16777216
       [example_iteration\<lparr>fallocate_ret := Some EOPNOTSUPP\<rparr>, example_iteration, example_last] =
     Inr (EXIT_SUCCESS,
       [Lseek 6012928 None, Set_counter 20, Write None, Set_counter 20, Usleep]
         @ Fallocate 14575851 (Some EOPNOTSUPP)
         # [Usleep, Set_counter 20,
            Lseek 6012928 None, Set_counter 20, Write None, Set_counter 20,
            Lseek 6012928 None, Set_counter 20, Write None, Set_counter 20, Close 3])"
    by code_simp
  from hole_punch_never_retried [OF run refl] run show ?thesis
    by (simp only: list_all_iff simp_thms)
qed

subsection \<open>Write errors\<close>

lemma writer_write_enospc:
  "write_ret e = Some ENOSPC \<Longrightarrow> writer_write pf len ph e = (Next, ph, [Write (Some ENOSPC)])"
  by (simp add: writer_write_def)

lemma writer_write_fatal:
  "write_ret e = Some err \<Longrightarrow> err \<noteq> ENOSPC \<Longrightarrow> err \<noteq> EAGAIN \<Longrightarrow> err \<noteq> EINTR \<Longrightarrow>
   writer_write pf len ph e = (Tidy, ph, [Write (Some err), Pr_fail])"
  by (simp add: writer_write_def)

lemma writer_punch_write_ret [simp]:
  "writer_punch pf len ph (e\<lparr>write_ret := r\<rparr>) = writer_punch pf len ph e"
  by (simp add: writer_punch_def Let_def)

lemma writer_punch_not_tidy: "fst (writer_punch pf len ph e) \<noteq> Tidy"
  by (simp add: writer_punch_def stress_fiemap_count_def Let_def)

lemma writer_write_transient:
  assumes "write_ret e = Some EAGAIN \<or> write_ret e = Some EINTR"
  shows "fst (writer_write pf len ph e) \<noteq> Tidy"
    and "writer_write pf len ph e =
      (case writer_write pf len ph (e\<lparr>write_ret := None\<rparr>) of
         (fl, ph', acts) \<Rightarrow> (fl, ph', Write (write_ret e) # tl acts))"
  using assms writer_punch_not_tidy [of pf len ph e]
  by (auto simp: writer_write_def stress_fiemap_count_def Let_def split: prod.splits)

lemma writer_punch_no_fatal:
  "\<not> list_ex is_fatal_write (snd (snd (writer_punch pf len ph e)))"
  by (simp add: writer_punch_def stress_fiemap_count_def Let_def)

lemma writer_write_tidy_iff:
  "writer_write pf len ph e = (fl, ph', acts) \<Longrightarrow> (fl = Tidy \<longleftrightarrow> list_ex is_fatal_write acts)"
  using writer_punch_no_fatal [of pf len ph e] writer_punch_not_tidy [of pf len ph e]
  by (auto simp: writer_write_def stress_fiemap_count_def Let_def split: if_splits prod.splits)

lemma writer_body_tidy_iff:
  assumes "writer_body pf len ph e = Inr (fl, ph', acts)"
  shows "fl = Tidy \<longleftrightarrow> list_ex is_fatal_write acts"
proof -
  obtain wfl wph wacts where w: "writer_write pf len ph e = (wfl, wph, wacts)"
    by (cases "writer_write pf len ph e") auto
  show ?thesis
    using assms writer_write_tidy_iff [OF w]
    by (auto simp: writer_body_def stress_fiemap_count_def Let_def w split: if_splits)
qed

lemma writer_loop_failure_iff:
  "writer_loop pf len ph es = Inr (rc, acts) \<Longrightarrow>
   (rc = EXIT_FAILURE \<longleftrightarrow> list_ex is_fatal_write acts)"
proof (induction es arbitrary: ph rc acts)
  case Nil
  then show ?case by simp
next
  case (Cons e es)
  from Cons.prems(1) obtain fl ph' bacts where body: "writer_body pf len ph e = Inr (fl, ph', bacts)"
    by (auto split: sum.splits)
  note b = writer_body_tidy_iff [OF body]
  show ?case
  proof (cases "fl = Next \<and> keep_end e")
    case True
    with Cons.prems(1) body obtain acts' where
      rest: "writer_loop pf len ph' es = Inr (rc, acts')" and acts: "acts = bacts @ acts'"
      by (auto split: sum.splits)
    show ?thesis
      using Cons.IH [OF rest] b True acts by simp
  next
    case False
    with Cons.prems(1) body have "acts = bacts \<and> (rc = EXIT_FAILURE \<longleftrightarrow> fl = Tidy)"
      by (cases fl) (auto split: if_splits)
    then show ?thesis using b by simp
  qed
qed

lemma fatal_write_ex:
  "list_ex is_fatal_write acts \<longleftrightarrow>
   (\<exists>err. Write (Some err) \<in> set acts \<and> err \<noteq> ENOSPC \<and> err \<noteq> EAGAIN \<and> err \<noteq> EINTR)"
proof (induction acts)
  case Nil
  then show ?case by simp
next
  case (Cons a acts)
  then show ?case by (cases a) auto
qed

lemma writer_failure_iff:
  assumes "stress_fiemap_writer pf fd fiemap_bytes es = Inr (rc, acts)"
  shows "rc = EXIT_FAILURE \<longleftrightarrow>
    (\<exists>err. Write (Some err) \<in> set acts \<and> err \<noteq> ENOSPC \<and> err \<noteq> EAGAIN \<and> err \<noteq> EINTR)"
proof -
  from assms obtain lacts where
    l: "writer_loop pf (fiemap_bytes - 1) True es = Inr (rc, lacts)" and a: "acts = lacts @ [Close fd]"
    by (auto simp: stress_fiemap_writer_def split: sum.splits)
  have "list_ex is_fatal_write acts \<longleftrightarrow> list_ex is_fatal_write lacts"
    by (simp add: a)
  then show ?thesis
    using writer_loop_failure_iff [OF l] fatal_write_ex [of acts] by simp
qed

lemma writer_loop_write_reached:
  assumes "len \<noteq> 0" "lseek_ret e = None" "keep (count_a e)"
  shows "writer_body pf len ph e =
    (case writer_write pf len ph e of
       (fl, ph', wacts) \<Rightarrow>
         Inr (fl, ph', [Lseek ((mwc_a e mod len) AND NOT 0x1fff) None,
                        Set_counter (count_loop (slot_reads (count_a e)) 0 0)] @ wacts))"
  using assms
  by (simp add: writer_body_def stress_fiemap_count_def Let_def split: prod.splits)

lemma writer_loop_enospc:
  assumes "len \<noteq> 0" "lseek_ret e = None" "keep (count_a e)" "write_ret e = Some ENOSPC"
  shows "writer_loop pf len ph (e # es) =
    (let acts = [Lseek ((mwc_a e mod len) AND NOT 0x1fff) None,
                 Set_counter (count_loop (slot_reads (count_a e)) 0 0),
                 Write (Some ENOSPC)]
     in if keep_end e then
          (case writer_loop pf len ph es of
             Inl f \<Rightarrow> Inl f
           | Inr (rc, acts') \<Rightarrow> Inr (rc, acts @ acts'))
        else Inr (EXIT_SUCCESS, acts))"
  using assms
  by (simp add: writer_loop_write_reached writer_write_enospc Let_def split: sum.splits)

lemma writer_loop_fatal:
  assumes "len \<noteq> 0" "lseek_ret e = None" "keep (count_a e)" "write_ret e = Some err"
    "err \<noteq> ENOSPC" "err \<noteq> EAGAIN" "err \<noteq> EINTR"
  shows "writer_loop pf len ph (e # es) =
    Inr (EXIT_FAILURE,
      [Lseek ((mwc_a e mod len) AND NOT 0x1fff) None,
       Set_counter (count_loop (slot_reads (count_a e)) 0 0),
       Write (Some err), Pr_fail])"
  using assms
  by (simp add: writer_loop_write_reached writer_write_fatal)

text \<open>
  C7. When the write of an iteration fails with \<open>ENOSPC\<close>, the iteration ends there and
  the loop condition decides whether the next iteration starts; with \<open>EAGAIN\<close> or
  \<open>EINTR\<close> the iteration goes on as after a successful write; with any other error the
  writer stops with \<open>EXIT_FAILURE\<close> after reporting it. A run of the writer returns
  \<open>EXIT_FAILURE\<close> exactly when one of its writes failed with such an other error.
\<close>

theorem write_error_handling:
  "(len \<noteq> 0 \<and> lseek_ret e = None \<and> keep (count_a e) \<and> write_ret e = Some ENOSPC \<longrightarrow>
      writer_loop pf len ph (e # es) =
        (let acts = [Lseek ((mwc_a e mod len) AND NOT 0x1fff) None,
                     Set_counter (count_loop (slot_reads (count_a e)) 0 0),
                     Write (Some ENOSPC)]
         in if keep_end e then
              (case writer_loop pf len ph es of
                 Inl f \<Rightarrow> Inl f
               | Inr (rc, acts') \<Rightarrow> Inr (rc, acts @ acts'))
            else Inr (EXIT_SUCCESS, acts)))
   \<and> (write_ret e = Some EAGAIN \<or> write_ret e = Some EINTR \<longrightarrow>
        fst (writer_write pf len ph e) \<noteq> Tidy
        \<and> writer_write pf len ph e =
            (case writer_write pf len ph (e\<lparr>write_ret := None\<rparr>) of
               (fl, ph', acts) \<Rightarrow> (fl, ph', Write (write_ret e) # tl acts)))
   \<and> (\<forall>err. len \<noteq> 0 \<and> lseek_ret e = None \<and> keep (count_a e) \<and> write_ret e = Some err
          \<and> err \<noteq> ENOSPC \<and> err \<noteq> EAGAIN \<and> err \<noteq> EINTR \<longrightarrow>
        writer_loop pf len ph (e # es) =
          Inr (EXIT_FAILURE,
            [Lseek ((mwc_a e mod len) AND NOT 0x1fff) None,
             Set_counter (count_loop (slot_reads (count_a e)) 0 0),
             Write (Some err), Pr_fail]))
   \<and> (\<forall>rc acts. stress_fiemap_writer pf fd fiemap_bytes es = Inr (rc, acts) \<longrightarrow>
        (rc = EXIT_FAILURE \<longleftrightarrow>
          (\<exists>err. Write (Some err) \<in> set acts \<and> err \<noteq> ENOSPC \<and> err \<noteq> EAGAIN \<and> err \<noteq> EINTR)))"
proof (intro conjI impI allI)
  assume "len \<noteq> 0 \<and> lseek_ret e = None \<and> keep (count_a e) \<and> write_ret e = Some ENOSPC"
  then show "writer_loop pf len ph (e # es) =
        (let acts = [Lseek ((mwc_a e mod len) AND NOT 0x1fff) None,
                     Set_counter (count_loop (slot_reads (count_a e)) 0 0),
                     Write (Some ENOSPC)]
         in if keep_end e then
              (case writer_loop pf len ph es of
                 Inl f \<Rightarrow> Inl f
               | Inr (rc, acts') \<Rightarrow> Inr (rc, acts @ acts'))
            else Inr (EXIT_SUCCESS, acts))"
    using writer_loop_enospc by blast
next
  assume "write_ret e = Some EAGAIN \<or> write_ret e = Some EINTR"
  then show "fst (writer_write pf len ph e) \<noteq> Tidy"
    by (rule writer_write_transient(1))
next
  assume "write_ret e = Some EAGAIN \<or> write_ret e = Some EINTR"
  then show "writer_write pf len ph e =
            (case writer_write pf len ph (e\<lparr>write_ret := None\<rparr>) of
               (fl, ph', acts) \<Rightarrow> (fl, ph', Write (write_ret e) # tl acts))"
    by (rule writer_write_transient(2))
next
  fix err
  assume "len \<noteq> 0 \<and> lseek_ret e = None \<and> keep (count_a e) \<and> write_ret e = Some err
          \<and> err \<noteq> ENOSPC \<and> err \<noteq> EAGAIN \<and> err \<noteq> EINTR"
  then show "writer_loop pf len ph (e # es) =
          Inr (EXIT_FAILURE,
            [Lseek ((mwc_a e mod len) AND NOT 0x1fff) None,
             Set_counter (count_loop (slot_reads (count_a e)) 0 0),
             Write (Some err), Pr_fail])"
    using writer_loop_fatal by blast
next
  fix rc acts
  assume "stress_fiemap_writer pf fd fiemap_bytes es = Inr (rc, acts)"
  then show "rc = EXIT_FAILURE \<longleftrightarrow>
          (\<exists>err. Write (Some err) \<in> set acts \<and> err \<noteq> ENOSPC \<and> err \<noteq> EAGAIN \<and> err \<noteq> EINTR)"
    by (rule writer_failure_iff)
qed


theorem write_error_handling_witness:
  "lseek_ret example_iteration = None \<and> keep (count_a example_iteration)
   \<and> writer_loop example_platform 16777215 True
        [example_iteration\<lparr>write_ret := Some ENOSPC\<rparr>, example_last] =
       Inr (EXIT_SUCCESS,
         [Lseek 6012928 None, Set_counter 20, Write (Some ENOSPC),
          Lseek 6012928 None, Set_counter 20, Write None, Set_counter 20, Usleep,
          Fallocate 14575851 None, Usleep, Set_counter 20])
   \<and> writer_write example_platform 16777215 True (example_iteration\<lparr>write_ret := Some EAGAIN\<rparr>) =
       (Next, True,
        [Write (Some EAGAIN), Set_counter 20, Usleep, Fallocate 14575851 None, Usleep,
         Set_counter 20])
   \<and> writer_loop example_platform 16777215 True
        [example_iteration\<lparr>write_ret := Some 5\<rparr>, example_last] =
       Inr (EXIT_FAILURE, [Lseek 6012928 None, Set_counter 20, Write (Some 5), Pr_fail])
   \<and> stress_fiemap_writer example_platform 3 16777216 [example_iteration\<lparr>write_ret := Some 5\<rparr>] =
       Inr (EXIT_FAILURE, [Lseek 6012928 None, Set_counter 20, Write (Some 5), Pr_fail, Close 3])
   \<and> stress_fiemap_writer example_platform 3 16777216
        [example_iteration\<lparr>write_ret := Some EINTR\<rparr>, example_last] =
       Inr (EXIT_SUCCESS,
         [Lseek 6012928 None, Set_counter 20, Write (Some EINTR), Set_counter 20, Usleep,
          Fallocate 14575851 None, Usleep, Set_counter 20,
          Lseek 6012928 None, Set_counter 20, Write None, Set_counter 20, Usleep,
          Fallocate 14575851 None, Usleep, Set_counter 20, Close 3])"
proof -
  have reached: "lseek_ret example_iteration = None" "keep (count_a example_iteration)"
    by (simp_all add: example_iteration_def example_count_def)
  have rest: "writer_loop example_platform 16777215 True [example_last] =
      Inr (EXIT_SUCCESS,
        [Lseek 6012928 None, Set_counter 20, Write None, Set_counter 20, Usleep,
         Fallocate 14575851 None, Usleep, Set_counter 20])"
    by code_simp
  have "count_loop (slot_reads example_count) 0 0 = 20"
    by code_simp
  then have head: "mwc_a example_iteration = 123456789"
      "count_loop (slot_reads (count_a example_iteration)) 0 0 = 20"
    by (simp_all add: example_iteration_def)
  have last_ok: "writer_write example_platform 16777215 True (example_iteration\<lparr>write_ret := None\<rparr>) =
       (Next, True,
        [Write None, Set_counter 20, Usleep, Fallocate 14575851 None, Usleep, Set_counter 20])"
    by code_simp
  have nospace: "writer_loop example_platform 16777215 True
        [example_iteration\<lparr>write_ret := Some ENOSPC\<rparr>, example_last] =
       Inr (EXIT_SUCCESS,
         [Lseek 6012928 None, Set_counter 20, Write (Some ENOSPC),
          Lseek 6012928 None, Set_counter 20, Write None, Set_counter 20, Usleep,
          Fallocate 14575851 None, Usleep, Set_counter 20])"
    using write_error_handling [where len = 16777215 and pf = example_platform and ph = True
        and e = "example_iteration\<lparr>write_ret := Some ENOSPC\<rparr>" and es = "[example_last]"]
      reached rest head
    by (simp add: example_iteration_def)
  have again: "writer_write example_platform 16777215 True (example_iteration\<lparr>write_ret := Some EAGAIN\<rparr>) =
       (Next, True,
        [Write (Some EAGAIN), Set_counter 20, Usleep, Fallocate 14575851 None, Usleep,
         Set_counter 20])"
    using write_error_handling [where len = 16777215 and pf = example_platform and ph = True
        and e = "example_iteration\<lparr>write_ret := Some EAGAIN\<rparr>"]
      last_ok
    by simp
  have fatal: "writer_loop example_platform 16777215 True
        [example_iteration\<lparr>write_ret := Some 5\<rparr>, example_last] =
       Inr (EXIT_FAILURE, [Lseek 6012928 None, Set_counter 20, Write (Some 5), Pr_fail])"
    using write_error_handling [where len = 16777215 and pf = example_platform and ph = True
        and e = "example_iteration\<lparr>write_ret := Some 5\<rparr>" and es = "[example_last]"]
      reached head
    by simp
  have run: "stress_fiemap_writer example_platform 3 16777216 [example_iteration\<lparr>write_ret := Some 5\<rparr>] =
       Inr (EXIT_FAILURE, [Lseek 6012928 None, Set_counter 20, Write (Some 5), Pr_fail, Close 3])"
    by code_simp
  have run': "stress_fiemap_writer example_platform 3 16777216
        [example_iteration\<lparr>write_ret := Some EINTR\<rparr>, example_last] =
       Inr (EXIT_SUCCESS,
         [Lseek 6012928 None, Set_counter 20, Write (Some EINTR), Set_counter 20, Usleep,
          Fallocate 14575851 None, Usleep, Set_counter 20,
          Lseek 6012928 None, Set_counter 20, Write None, Set_counter 20, Usleep,
          Fallocate 14575851 None, Usleep, Set_counter 20, Close 3])"
    by code_simp
  from reached nospace again fatal run run' show ?thesis
    by (intro conjI)
qed

section \<open>Properties of the supervisor\<close>

lemma spawn_loop_parent:
  assumes "n \<le> k" "k \<le> MAX_FIEMAP_PROCS"
    and "\<forall>j. n \<le> j \<and> j < k \<longrightarrow> keep_spawn env j \<and> 0 < fork_ret env j"
  shows "spawn_loop args env n pids acts =
    spawn_loop args env k (pids @ map (fork_ret env) [n..<k])
      (acts @ concat (map (\<lambda>j. [Fork j (fork_ret env j), Setpgid]) [n..<k]))"
  using assms
proof (induction k)
  case 0
  then show ?case by simp
next
  case (Suc k)
  show ?case
  proof (cases "n = Suc k")
    case True
    then show ?thesis by simp
  next
    case False
    with Suc.prems have nk: "n \<le> k" and k4: "k < MAX_FIEMAP_PROCS"
      and kk: "keep_spawn env k" and fk: "0 < fork_ret env k" by auto
    have "spawn_loop args env n pids acts =
      spawn_loop args env k (pids @ map (fork_ret env) [n..<k])
        (acts @ concat (map (\<lambda>j. [Fork j (fork_ret env j), Setpgid]) [n..<k]))"
      using Suc.IH nk k4 Suc.prems(3) by simp
    also have "\<dots> = spawn_loop args env (Suc k) ((pids @ map (fork_ret env) [n..<k]) @ [fork_ret env k])
        ((acts @ concat (map (\<lambda>j. [Fork j (fork_ret env j), Setpgid]) [n..<k]))
           @ [Fork k (fork_ret env k), Setpgid])"
      using k4 kk fk
      by (subst spawn_loop.simps) (simp add: stress_fiemap_spawn_def)
    finally show ?thesis using nk by simp
  qed
qed

lemma spawn_loop_all:
  assumes "\<forall>j < MAX_FIEMAP_PROCS. keep_spawn env j \<and> 0 < fork_ret env j"
  shows "spawn_loop args env 0 [] acts =
    Inr (All_spawned, map (fork_ret env) [0..<MAX_FIEMAP_PROCS], acts @ forks env MAX_FIEMAP_PROCS)"
proof -
  have "spawn_loop args env 0 [] acts =
    spawn_loop args env MAX_FIEMAP_PROCS ([] @ map (fork_ret env) [0..<MAX_FIEMAP_PROCS])
      (acts @ concat (map (\<lambda>j. [Fork j (fork_ret env j), Setpgid]) [0..<MAX_FIEMAP_PROCS]))"
    using assms by (intro spawn_loop_parent) auto
  also have "\<dots> = Inr (All_spawned, map (fork_ret env) [0..<MAX_FIEMAP_PROCS],
      acts @ forks env MAX_FIEMAP_PROCS)"
    by (subst spawn_loop.simps) (simp add: forks_def)
  finally show ?thesis .
qed

lemma spawn_loop_fork_fails:
  assumes "k < MAX_FIEMAP_PROCS"
    and "\<forall>j < k. keep_spawn env j \<and> 0 < fork_ret env j"
    and "keep_spawn env k" and "fork_ret env k < 0"
  shows "spawn_loop args env 0 [] acts =
    Inr (Fork_failed, map (fork_ret env) [0..<k], acts @ forks env k @ [Fork k (fork_ret env k)])"
proof -
  have "spawn_loop args env 0 [] acts =
    spawn_loop args env k ([] @ map (fork_ret env) [0..<k])
      (acts @ concat (map (\<lambda>j. [Fork j (fork_ret env j), Setpgid]) [0..<k]))"
    using assms by (intro spawn_loop_parent) auto
  also have "\<dots> = Inr (Fork_failed, map (fork_ret env) [0..<k],
      acts @ forks env k @ [Fork k (fork_ret env k)])"
    using assms
    by (subst spawn_loop.simps) (simp add: forks_def stress_fiemap_spawn_def)
  finally show ?thesis .
qed

lemma stress_fiemap_probe_ok:
  assumes "instance_fiemap_bytes pf args (configured_fiemap_bytes pf env) = Inr fiemap_bytes"
    and "mmap_ok env" "0 \<le> temp_dir_mk_ret env" "0 \<le> open_fd env" "probe_ret env = Inr m"
  shows "stress_fiemap pf args env =
    fiemap_run pf args env (open_fd env) fiemap_bytes (setup_actions env)"
  using assms by (simp add: stress_fiemap_def setup_actions_def Let_def)

lemma stress_fiemap_probe_fails:
  assumes "args_num_instances args \<noteq> 0"
    and "mmap_ok env" "0 \<le> temp_dir_mk_ret env" "0 \<le> open_fd env" "probe_ret env = Inl err"
  shows "stress_fiemap pf args env =
    Inr (EXIT_NOT_IMPLEMENTED,
      setup_actions env @ (if args_instance args = 0 then [Pr_inf_skip] else [])
        @ close_clean (open_fd env))"
  using assms
  by (simp add: stress_fiemap_def instance_fiemap_bytes_def setup_actions_def Let_def)

lemma writer_punch_actions:
  "list_all is_writer_loop_action (snd (snd (writer_punch pf len ph e)))"
  by (simp add: writer_punch_def stress_fiemap_count_def Let_def)

lemma writer_write_actions:
  "list_all is_writer_loop_action (snd (snd (writer_write pf len ph e)))"
  using writer_punch_actions [of pf len ph e]
  by (auto simp: writer_write_def stress_fiemap_count_def Let_def split: prod.splits)

lemma writer_body_actions:
  "writer_body pf len ph e = Inr (fl, ph', acts) \<Longrightarrow> list_all is_writer_loop_action acts"
  using writer_write_actions [of pf len ph e]
  by (auto simp: writer_body_def stress_fiemap_count_def Let_def split: if_splits prod.splits)

lemma writer_loop_actions:
  "writer_loop pf len ph es = Inr (rc, acts) \<Longrightarrow> list_all is_writer_loop_action acts"
proof (induction es arbitrary: ph rc acts)
  case Nil
  then show ?case by simp
next
  case (Cons e es)
  from Cons.prems(1) obtain fl ph' bacts where body: "writer_body pf len ph e = Inr (fl, ph', bacts)"
    by (auto split: sum.splits)
  note b = writer_body_actions [OF body]
  show ?case
  proof (cases "fl = Next \<and> keep_end e")
    case True
    with Cons.prems(1) body obtain acts' where
      rest: "writer_loop pf len ph' es = Inr (rc, acts')" and acts: "acts = bacts @ acts'"
      by (auto split: sum.splits)
    show ?thesis
      using Cons.IH [OF rest] b acts by simp
  next
    case False
    with Cons.prems(1) body have "acts = bacts"
      by (cases fl) (auto split: if_splits)
    then show ?thesis using b by simp
  qed
qed

lemma writer_closes_once:
  assumes "stress_fiemap_writer pf fd fiemap_bytes es = Inr (rc, acts)"
  shows "\<exists>lacts. acts = lacts @ [Close fd] \<and> list_all is_writer_loop_action lacts"
proof -
  from assms obtain lacts where
    l: "writer_loop pf (fiemap_bytes - 1) True es = Inr (rc, lacts)"
    and a: "acts = lacts @ [Close fd]"
    by (auto simp: stress_fiemap_writer_def split: sum.splits)
  from writer_loop_actions [OF l] a show ?thesis by blast
qed

lemma writer_loop_action_not_close:
  "list_all is_writer_loop_action acts \<Longrightarrow> count_list acts (Close fd) = 0"
  by (induction acts) auto

lemma stress_fiemap_driver:
  assumes b: "instance_fiemap_bytes pf args (configured_fiemap_bytes pf env) = Inr fiemap_bytes"
    and "mmap_ok env" "0 \<le> temp_dir_mk_ret env" "0 \<le> open_fd env" "probe_ret env = Inr m"
    and all: "\<forall>j < MAX_FIEMAP_PROCS. keep_spawn env j \<and> 0 < fork_ret env j"
  shows "stress_fiemap pf args env =
    (case stress_fiemap_writer pf (open_fd env) fiemap_bytes (writer_envs env) of
       Inl f \<Rightarrow> Inl f
     | Inr (rc, wacts) \<Rightarrow>
         Inr (rc, setup_actions env @ [Set_proc_state STRESS_STATE_RUN]
                @ forks env MAX_FIEMAP_PROCS @ wacts
                @ reap (map (fork_ret env) [0..<MAX_FIEMAP_PROCS]) (open_fd env)))"
  using assms(2-5)
  by (simp add: stress_fiemap_probe_ok [OF assms(1-5)] fiemap_run_def spawn_loop_all [OF all]
      split: sum.splits)

lemma unat_ucast_32_64: "unat (ucast (n :: 32 word) :: 64 word) = unat n"
proof -
  have "unat n < 2 ^ 32"
    using unsigned_less [of n, where 'a = nat] by simp
  then have "unat n < 2 ^ 64"
    by (rule less_trans) simp
  then show ?thesis
    by (simp add: unsigned_ucast_eq take_bit_nat_eq_self)
qed

lemma instance_fiemap_bytes_value:
  assumes "args_num_instances args \<noteq> 0"
  shows "\<exists>b. instance_fiemap_bytes pf args s = Inr b
    \<and> unat b = max (unat s div unat (args_num_instances args)) (unat (MIN_FIEMAP_SIZE pf))"
  using assms
  by (auto simp: instance_fiemap_bytes_def Let_def word_less_nat_alt unat_div unat_ucast_32_64 max_def)

text \<open>
  C4. When a size \<open>S\<close> is configured and the number of instances is not zero, the length
  one instance works on is \<open>max (S div n) MIN_FIEMAP_SIZE\<close>, computed without wrap-around,
  and it is the length the writer is run with.
\<close>

theorem instance_length_is_clamped_share:
  assumes "setting env = Some S" and "args_num_instances args \<noteq> 0"
  shows "\<exists>b. instance_fiemap_bytes pf args (configured_fiemap_bytes pf env) = Inr b
    \<and> unat b = max (unat S div unat (args_num_instances args)) (unat (MIN_FIEMAP_SIZE pf))
    \<and> (mmap_ok env \<and> 0 \<le> temp_dir_mk_ret env \<and> 0 \<le> open_fd env
         \<and> (\<exists>m. probe_ret env = Inr m)
         \<and> (\<forall>j < MAX_FIEMAP_PROCS. keep_spawn env j \<and> 0 < fork_ret env j) \<longrightarrow>
        stress_fiemap pf args env =
          (case stress_fiemap_writer pf (open_fd env) b (writer_envs env) of
             Inl f \<Rightarrow> Inl f
           | Inr (rc, wacts) \<Rightarrow>
               Inr (rc, setup_actions env @ [Set_proc_state STRESS_STATE_RUN]
                      @ forks env MAX_FIEMAP_PROCS @ wacts
                      @ reap (map (fork_ret env) [0..<MAX_FIEMAP_PROCS]) (open_fd env))))"
proof -
  have conf: "configured_fiemap_bytes pf env = S"
    using assms(1) by (simp add: configured_fiemap_bytes_def)
  from instance_fiemap_bytes_value [OF assms(2), of pf S] obtain b where
    b: "instance_fiemap_bytes pf args S = Inr b"
    and v: "unat b = max (unat S div unat (args_num_instances args)) (unat (MIN_FIEMAP_SIZE pf))"
    by blast
  have "stress_fiemap pf args env =
          (case stress_fiemap_writer pf (open_fd env) b (writer_envs env) of
             Inl f \<Rightarrow> Inl f
           | Inr (rc, wacts) \<Rightarrow>
               Inr (rc, setup_actions env @ [Set_proc_state STRESS_STATE_RUN]
                      @ forks env MAX_FIEMAP_PROCS @ wacts
                      @ reap (map (fork_ret env) [0..<MAX_FIEMAP_PROCS]) (open_fd env)))"
    if "mmap_ok env" "0 \<le> temp_dir_mk_ret env" "0 \<le> open_fd env" "probe_ret env = Inr m"
      "\<forall>j < MAX_FIEMAP_PROCS. keep_spawn env j \<and> 0 < fork_ret env j" for m
    using b that unfolding conf [symmetric] by (rule stress_fiemap_driver)
  with b v conf show ?thesis by auto
qed

theorem instance_length_is_clamped_share_witness:
  "setting example_env = Some 67108864 \<and> args_num_instances example_args \<noteq> 0
   \<and> instance_fiemap_bytes example_platform example_args
        (configured_fiemap_bytes example_platform example_env) = Inr 16777216
   \<and> unat (16777216 :: 64 word) =
        max (unat (67108864 :: 64 word) div unat (args_num_instances example_args))
          (unat (MIN_FIEMAP_SIZE example_platform))
   \<and> stress_fiemap example_platform example_args example_env =
       Inr (EXIT_SUCCESS,
         [Mmap True, Memset_counters, Temp_dir_mk 0, Open_file (Inr 3), Unlink,
          Ioctl fiemap_whole_file (Inr 0), Set_proc_state STRESS_STATE_RUN,
          Fork 0 100, Setpgid, Fork 1 101, Setpgid, Fork 2 102, Setpgid, Fork 3 103, Setpgid,
          Lseek 6012928 None, Set_counter 20, Write None, Set_counter 20, Usleep,
          Fallocate 14575851 None, Usleep, Set_counter 20, Close 3,
          Set_proc_state STRESS_STATE_DEINIT, Kill 100, Waitpid 100, Kill 101, Waitpid 101,
          Kill 102, Waitpid 102, Kill 103, Waitpid 103,
          Set_proc_state STRESS_STATE_DEINIT, Close 3,
          Set_proc_state STRESS_STATE_DEINIT, Temp_dir_rm,
          Set_proc_state STRESS_STATE_DEINIT, Munmap])"
proof -
  have h: "setting example_env = Some 67108864" "args_num_instances example_args \<noteq> 0"
    by (simp_all add: example_env_def example_args_def)
  have ib: "instance_fiemap_bytes example_platform example_args
        (configured_fiemap_bytes example_platform example_env) = Inr 16777216"
    by code_simp
  have run: "stress_fiemap example_platform example_args example_env =
       Inr (EXIT_SUCCESS,
         [Mmap True, Memset_counters, Temp_dir_mk 0, Open_file (Inr 3), Unlink,
          Ioctl fiemap_whole_file (Inr 0), Set_proc_state STRESS_STATE_RUN,
          Fork 0 100, Setpgid, Fork 1 101, Setpgid, Fork 2 102, Setpgid, Fork 3 103, Setpgid,
          Lseek 6012928 None, Set_counter 20, Write None, Set_counter 20, Usleep,
          Fallocate 14575851 None, Usleep, Set_counter 20, Close 3,
          Set_proc_state STRESS_STATE_DEINIT, Kill 100, Waitpid 100, Kill 101, Waitpid 101,
          Kill 102, Waitpid 102, Kill 103, Waitpid 103,
          Set_proc_state STRESS_STATE_DEINIT, Close 3,
          Set_proc_state STRESS_STATE_DEINIT, Temp_dir_rm,
          Set_proc_state STRESS_STATE_DEINIT, Munmap])"
    by code_simp
  from instance_length_is_clamped_share [OF h, of example_platform] ib
  have "unat (16777216 :: 64 word) =
        max (unat (67108864 :: 64 word) div unat (args_num_instances example_args))
          (unat (MIN_FIEMAP_SIZE example_platform))"
    by auto
  with h ib run show ?thesis by (intro conjI)
qed

text \<open>
  C3. When the probe ioctl of the supervisor fails, with whatever error number, the run
  returns \<open>EXIT_NOT_IMPLEMENTED\<close> after the teardown from \<open>close_clean\<close> on: it forks
  no worker and does none of the driver's file operations.
\<close>

theorem probe_failure_not_implemented:
  assumes "args_num_instances args \<noteq> 0"
    and "mmap_ok env" and "0 \<le> temp_dir_mk_ret env" and "0 \<le> open_fd env"
    and "probe_ret env = Inl err"
  shows "\<exists>acts. stress_fiemap pf args env = Inr (EXIT_NOT_IMPLEMENTED, acts)
    \<and> acts = setup_actions env @ (if args_instance args = 0 then [Pr_inf_skip] else [])
               @ close_clean (open_fd env)
    \<and> list_all (\<lambda>a. \<not> is_Fork a \<and> \<not> is_driver_action a) acts"
  using stress_fiemap_probe_fails [OF assms, of pf]
  by (simp add: setup_actions_def close_clean_def dir_clean_def clean_def)

theorem probe_failure_not_implemented_witness:
  "args_num_instances example_args \<noteq> 0 \<and> mmap_ok example_env_no_fiemap
   \<and> 0 \<le> temp_dir_mk_ret example_env_no_fiemap \<and> 0 \<le> open_fd example_env_no_fiemap
   \<and> probe_ret example_env_no_fiemap = Inl EOPNOTSUPP
   \<and> stress_fiemap example_platform example_args example_env_no_fiemap =
       Inr (EXIT_NOT_IMPLEMENTED,
         [Mmap True, Memset_counters, Temp_dir_mk 0, Open_file (Inr 3), Unlink,
          Ioctl fiemap_whole_file (Inl EOPNOTSUPP), Pr_inf_skip,
          Set_proc_state STRESS_STATE_DEINIT, Close 3,
          Set_proc_state STRESS_STATE_DEINIT, Temp_dir_rm,
          Set_proc_state STRESS_STATE_DEINIT, Munmap])"
proof -
  have h: "args_num_instances example_args \<noteq> 0" "mmap_ok example_env_no_fiemap"
    "0 \<le> temp_dir_mk_ret example_env_no_fiemap" "0 \<le> open_fd example_env_no_fiemap"
    "probe_ret example_env_no_fiemap = Inl EOPNOTSUPP"
    by (simp_all add: example_args_def example_env_no_fiemap_def example_env_def)
  from probe_failure_not_implemented [OF h, of example_platform]
  have "stress_fiemap example_platform example_args example_env_no_fiemap =
       Inr (EXIT_NOT_IMPLEMENTED,
         [Mmap True, Memset_counters, Temp_dir_mk 0, Open_file (Inr 3), Unlink,
          Ioctl fiemap_whole_file (Inl EOPNOTSUPP), Pr_inf_skip,
          Set_proc_state STRESS_STATE_DEINIT, Close 3,
          Set_proc_state STRESS_STATE_DEINIT, Temp_dir_rm,
          Set_proc_state STRESS_STATE_DEINIT, Munmap])"
    by (simp add: setup_actions_def close_clean_def dir_clean_def clean_def
        example_args_def example_env_no_fiemap_def example_env_def)
  with h show ?thesis by (intro conjI)
qed

text \<open>
  C2, as the code has it. When the fork of worker \<open>k\<close> fails after \<open>k\<close> workers were
  forked, the supervisor forks no further worker, does not run the driver, kills and waits
  for exactly the \<open>k\<close> workers it forked, in the order of their creation, tears down, and
  returns \<open>EXIT_FAILURE\<close>.
\<close>

theorem fork_failure_reaps_and_fails:
  assumes "args_num_instances args \<noteq> 0"
    and "mmap_ok env" and "0 \<le> temp_dir_mk_ret env" and "0 \<le> open_fd env"
    and "probe_ret env = Inr m"
    and "k < MAX_FIEMAP_PROCS"
    and "\<forall>j < k. keep_spawn env j \<and> 0 < fork_ret env j"
    and "keep_spawn env k" and "fork_ret env k < 0"
  shows "stress_fiemap pf args env =
    Inr (EXIT_FAILURE,
      setup_actions env @ [Set_proc_state STRESS_STATE_RUN]
        @ forks env k @ [Fork k (fork_ret env k)]
        @ [Set_proc_state STRESS_STATE_DEINIT]
        @ concat (map (\<lambda>j. [Kill (fork_ret env j), Waitpid (fork_ret env j)]) [0..<k])
        @ close_clean (open_fd env))"
proof -
  from instance_fiemap_bytes_value [OF assms(1)] obtain b where
    b: "instance_fiemap_bytes pf args (configured_fiemap_bytes pf env) = Inr b"
    by blast
  have "stress_fiemap pf args env = fiemap_run pf args env (open_fd env) b (setup_actions env)"
    using b assms(2-5) by (rule stress_fiemap_probe_ok)
  also have "\<dots> = Inr (EXIT_FAILURE,
      (setup_actions env @ [Set_proc_state STRESS_STATE_RUN])
        @ forks env k @ [Fork k (fork_ret env k)]
        @ reap (map (fork_ret env) [0..<k]) (open_fd env))"
    by (simp add: fiemap_run_def spawn_loop_fork_fails [OF assms(6-9)])
  finally show ?thesis
    by (simp add: reap_def map_concat comp_def)
qed

theorem fork_failure_reaps_and_fails_witness:
  "args_num_instances example_args \<noteq> 0 \<and> mmap_ok example_env_fork_fails
   \<and> 0 \<le> temp_dir_mk_ret example_env_fork_fails \<and> 0 \<le> open_fd example_env_fork_fails
   \<and> probe_ret example_env_fork_fails = Inr 0
   \<and> keep_spawn example_env_fork_fails 0 \<and> 0 < fork_ret example_env_fork_fails 0
   \<and> keep_spawn example_env_fork_fails 1 \<and> 0 < fork_ret example_env_fork_fails 1
   \<and> keep_spawn example_env_fork_fails 2 \<and> fork_ret example_env_fork_fails 2 < 0
   \<and> stress_fiemap example_platform example_args example_env_fork_fails =
       Inr (EXIT_FAILURE,
         setup_actions example_env_fork_fails @ [Set_proc_state STRESS_STATE_RUN]
           @ [Fork 0 100, Setpgid, Fork 1 101, Setpgid] @ [Fork 2 (- 1)]
           @ [Set_proc_state STRESS_STATE_DEINIT]
           @ [Kill 100, Waitpid 100, Kill 101, Waitpid 101]
           @ close_clean 3)"
proof -
  have h: "args_num_instances example_args \<noteq> 0" "mmap_ok example_env_fork_fails"
    "0 \<le> temp_dir_mk_ret example_env_fork_fails" "0 \<le> open_fd example_env_fork_fails"
    "probe_ret example_env_fork_fails = Inr 0"
    by (simp_all add: example_args_def example_env_fork_fails_def example_env_def)
  have s: "keep_spawn example_env_fork_fails 0 \<and> 0 < fork_ret example_env_fork_fails 0"
    "keep_spawn example_env_fork_fails 1 \<and> 0 < fork_ret example_env_fork_fails 1"
    "keep_spawn example_env_fork_fails 2" "fork_ret example_env_fork_fails 2 < 0"
    by (simp_all add: example_env_fork_fails_def example_env_def)
  have k: "(2 :: nat) < MAX_FIEMAP_PROCS"
    by simp
  have before: "\<forall>j < 2. keep_spawn example_env_fork_fails j \<and> 0 < fork_ret example_env_fork_fails j"
    using s(1,2) by (simp add: less_Suc_eq numeral_2_eq_2)
  have "forks example_env_fork_fails 2 = [Fork 0 100, Setpgid, Fork 1 101, Setpgid]"
    by code_simp
  moreover have "concat (map (\<lambda>j. [Kill (fork_ret example_env_fork_fails j),
        Waitpid (fork_ret example_env_fork_fails j)]) [0..<2]) =
      [Kill 100, Waitpid 100, Kill 101, Waitpid 101]"
    by code_simp
  moreover have "fork_ret example_env_fork_fails 2 = - 1" "open_fd example_env_fork_fails = 3"
    by (simp_all add: example_env_fork_fails_def example_env_def)
  ultimately have "stress_fiemap example_platform example_args example_env_fork_fails =
       Inr (EXIT_FAILURE,
         setup_actions example_env_fork_fails @ [Set_proc_state STRESS_STATE_RUN]
           @ [Fork 0 100, Setpgid, Fork 1 101, Setpgid] @ [Fork 2 (- 1)]
           @ [Set_proc_state STRESS_STATE_DEINIT]
           @ [Kill 100, Waitpid 100, Kill 101, Waitpid 101]
           @ close_clean 3)"
    using fork_failure_reaps_and_fails [OF h k before s(3,4), of example_platform]
    by simp
  with h s show ?thesis by (intro conjI) simp_all
qed

text \<open>
  C2, as the spec has it, fails: with the fork of the third worker failing and nothing else
  going wrong, the exit status is \<open>EXIT_FAILURE\<close>.
\<close>

theorem partial_fan_out_counterexample:
  "stress_fiemap example_platform example_args example_env_fork_fails =
     Inr (EXIT_FAILURE,
       [Mmap True, Memset_counters, Temp_dir_mk 0, Open_file (Inr 3), Unlink,
        Ioctl fiemap_whole_file (Inr 0), Set_proc_state STRESS_STATE_RUN,
        Fork 0 100, Setpgid, Fork 1 101, Setpgid, Fork 2 (- 1),
        Set_proc_state STRESS_STATE_DEINIT, Kill 100, Waitpid 100, Kill 101, Waitpid 101,
        Set_proc_state STRESS_STATE_DEINIT, Close 3,
        Set_proc_state STRESS_STATE_DEINIT, Temp_dir_rm,
        Set_proc_state STRESS_STATE_DEINIT, Munmap])"
  by code_simp

text \<open>
  C9. On every return path the writer closes the descriptor, as its last action and only
  there; when the supervisor runs the writer, its teardown closes the same descriptor once
  more after the workers are reaped.
\<close>

theorem descriptor_closed_twice:
  "(\<forall>rc acts. stress_fiemap_writer pf fd fiemap_bytes es = Inr (rc, acts) \<longrightarrow>
      (\<exists>lacts. acts = lacts @ [Close fd] \<and> count_list lacts (Close fd) = 0))
   \<and> (\<forall>rc acts m. args_num_instances args \<noteq> 0 \<and> mmap_ok env \<and> 0 \<le> temp_dir_mk_ret env
         \<and> 0 \<le> open_fd env \<and> probe_ret env = Inr m
         \<and> (\<forall>j < MAX_FIEMAP_PROCS. keep_spawn env j \<and> 0 < fork_ret env j)
         \<and> stress_fiemap pf args env = Inr (rc, acts) \<longrightarrow>
        (\<exists>b lacts. instance_fiemap_bytes pf args (configured_fiemap_bytes pf env) = Inr b
           \<and> stress_fiemap_writer pf (open_fd env) b (writer_envs env) =
               Inr (rc, lacts @ [Close (open_fd env)])
           \<and> acts = setup_actions env @ [Set_proc_state STRESS_STATE_RUN]
                 @ forks env MAX_FIEMAP_PROCS @ lacts @ [Close (open_fd env)]
                 @ [Set_proc_state STRESS_STATE_DEINIT]
                 @ concat (map (\<lambda>j. [Kill (fork_ret env j), Waitpid (fork_ret env j)])
                     [0..<MAX_FIEMAP_PROCS])
                 @ [Set_proc_state STRESS_STATE_DEINIT, Close (open_fd env)] @ dir_clean
           \<and> count_list acts (Close (open_fd env)) = 2))"
proof (intro conjI allI impI)
  fix rc acts
  assume "stress_fiemap_writer pf fd fiemap_bytes es = Inr (rc, acts)"
  from writer_closes_once [OF this] show
    "\<exists>lacts. acts = lacts @ [Close fd] \<and> count_list lacts (Close fd) = 0"
    using writer_loop_action_not_close by blast
next
  fix rc acts m
  assume h: "args_num_instances args \<noteq> 0 \<and> mmap_ok env \<and> 0 \<le> temp_dir_mk_ret env
         \<and> 0 \<le> open_fd env \<and> probe_ret env = Inr m
         \<and> (\<forall>j < MAX_FIEMAP_PROCS. keep_spawn env j \<and> 0 < fork_ret env j)
         \<and> stress_fiemap pf args env = Inr (rc, acts)"
  let ?fd = "open_fd env"
  from h instance_fiemap_bytes_value obtain b where
    b: "instance_fiemap_bytes pf args (configured_fiemap_bytes pf env) = Inr b"
    by blast
  have run: "stress_fiemap pf args env =
    (case stress_fiemap_writer pf ?fd b (writer_envs env) of
       Inl f \<Rightarrow> Inl f
     | Inr (rc, wacts) \<Rightarrow>
         Inr (rc, setup_actions env @ [Set_proc_state STRESS_STATE_RUN]
                @ forks env MAX_FIEMAP_PROCS @ wacts
                @ reap (map (fork_ret env) [0..<MAX_FIEMAP_PROCS]) ?fd))"
    using b h by (intro stress_fiemap_driver) auto
  with h obtain wacts where
    w: "stress_fiemap_writer pf ?fd b (writer_envs env) = Inr (rc, wacts)"
    and acts: "acts = setup_actions env @ [Set_proc_state STRESS_STATE_RUN]
                @ forks env MAX_FIEMAP_PROCS @ wacts
                @ reap (map (fork_ret env) [0..<MAX_FIEMAP_PROCS]) ?fd"
    by (auto split: sum.splits)
  from writer_closes_once [OF w] obtain lacts where
    l: "wacts = lacts @ [Close ?fd]" and la: "list_all is_writer_loop_action lacts"
    by blast
  have shape: "acts = setup_actions env @ [Set_proc_state STRESS_STATE_RUN]
                 @ forks env MAX_FIEMAP_PROCS @ lacts @ [Close ?fd]
                 @ [Set_proc_state STRESS_STATE_DEINIT]
                 @ concat (map (\<lambda>j. [Kill (fork_ret env j), Waitpid (fork_ret env j)])
                     [0..<MAX_FIEMAP_PROCS])
                 @ [Set_proc_state STRESS_STATE_DEINIT, Close ?fd] @ dir_clean"
    using acts l by (simp add: reap_def close_clean_def map_concat comp_def)
  have forks0: "count_list (forks env k) (Close ?fd) = 0" for k
    by (induction k) (simp_all add: forks_def)
  have kills0: "count_list (concat (map (\<lambda>j. [Kill (fork_ret env j), Waitpid (fork_ret env j)])
      [0..<k])) (Close ?fd) = 0" for k
    by (induction k) simp_all
  have "count_list acts (Close ?fd) = 2"
    unfolding shape
    by (simp add: forks0 kills0 writer_loop_action_not_close [OF la] setup_actions_def
        dir_clean_def clean_def)
  with b w l shape show "\<exists>b lacts. instance_fiemap_bytes pf args (configured_fiemap_bytes pf env) = Inr b
           \<and> stress_fiemap_writer pf (open_fd env) b (writer_envs env) =
               Inr (rc, lacts @ [Close (open_fd env)])
           \<and> acts = setup_actions env @ [Set_proc_state STRESS_STATE_RUN]
                 @ forks env MAX_FIEMAP_PROCS @ lacts @ [Close (open_fd env)]
                 @ [Set_proc_state STRESS_STATE_DEINIT]
                 @ concat (map (\<lambda>j. [Kill (fork_ret env j), Waitpid (fork_ret env j)])
                     [0..<MAX_FIEMAP_PROCS])
                 @ [Set_proc_state STRESS_STATE_DEINIT, Close (open_fd env)] @ dir_clean
           \<and> count_list acts (Close (open_fd env)) = 2"
    by blast
qed

theorem descriptor_closed_twice_witness:
  "stress_fiemap_writer example_platform 3 16777216 [example_iteration\<lparr>write_ret := Some 5\<rparr>] =
     Inr (EXIT_FAILURE, [Lseek 6012928 None, Set_counter 20, Write (Some 5), Pr_fail] @ [Close 3])
   \<and> count_list [Lseek 6012928 None, Set_counter 20, Write (Some 5), Pr_fail] (Close 3) = 0
   \<and> stress_fiemap example_platform example_args example_env =
       Inr (EXIT_SUCCESS,
         [Mmap True, Memset_counters, Temp_dir_mk 0, Open_file (Inr 3), Unlink,
          Ioctl fiemap_whole_file (Inr 0), Set_proc_state STRESS_STATE_RUN,
          Fork 0 100, Setpgid, Fork 1 101, Setpgid, Fork 2 102, Setpgid, Fork 3 103, Setpgid,
          Lseek 6012928 None, Set_counter 20, Write None, Set_counter 20, Usleep,
          Fallocate 14575851 None, Usleep, Set_counter 20, Close 3,
          Set_proc_state STRESS_STATE_DEINIT, Kill 100, Waitpid 100, Kill 101, Waitpid 101,
          Kill 102, Waitpid 102, Kill 103, Waitpid 103,
          Set_proc_state STRESS_STATE_DEINIT, Close 3,
          Set_proc_state STRESS_STATE_DEINIT, Temp_dir_rm,
          Set_proc_state STRESS_STATE_DEINIT, Munmap])
   \<and> count_list
        [Mmap True, Memset_counters, Temp_dir_mk 0, Open_file (Inr 3), Unlink,
         Ioctl fiemap_whole_file (Inr 0), Set_proc_state STRESS_STATE_RUN,
         Fork 0 100, Setpgid, Fork 1 101, Setpgid, Fork 2 102, Setpgid, Fork 3 103, Setpgid,
         Lseek 6012928 None, Set_counter 20, Write None, Set_counter 20, Usleep,
         Fallocate 14575851 None, Usleep, Set_counter 20, Close 3,
         Set_proc_state STRESS_STATE_DEINIT, Kill 100, Waitpid 100, Kill 101, Waitpid 101,
         Kill 102, Waitpid 102, Kill 103, Waitpid 103,
         Set_proc_state STRESS_STATE_DEINIT, Close 3,
         Set_proc_state STRESS_STATE_DEINIT, Temp_dir_rm,
         Set_proc_state STRESS_STATE_DEINIT, Munmap] (Close 3) = 2"
proof -
  let ?acts = "[Mmap True, Memset_counters, Temp_dir_mk 0, Open_file (Inr 3), Unlink,
         Ioctl fiemap_whole_file (Inr 0), Set_proc_state STRESS_STATE_RUN,
         Fork 0 100, Setpgid, Fork 1 101, Setpgid, Fork 2 102, Setpgid, Fork 3 103, Setpgid,
         Lseek 6012928 None, Set_counter 20, Write None, Set_counter 20, Usleep,
         Fallocate 14575851 None, Usleep, Set_counter 20, Close 3,
         Set_proc_state STRESS_STATE_DEINIT, Kill 100, Waitpid 100, Kill 101, Waitpid 101,
         Kill 102, Waitpid 102, Kill 103, Waitpid 103,
         Set_proc_state STRESS_STATE_DEINIT, Close 3,
         Set_proc_state STRESS_STATE_DEINIT, Temp_dir_rm,
         Set_proc_state STRESS_STATE_DEINIT, Munmap]"
  note t = descriptor_closed_twice [where pf = example_platform and fd = 3
      and fiemap_bytes = 16777216 and es = "[example_iteration\<lparr>write_ret := Some 5\<rparr>]"
      and args = example_args and env = example_env]
  have wrun: "stress_fiemap_writer example_platform 3 16777216
      [example_iteration\<lparr>write_ret := Some 5\<rparr>] =
     Inr (EXIT_FAILURE, [Lseek 6012928 None, Set_counter 20, Write (Some 5), Pr_fail] @ [Close 3])"
    by code_simp
  from t wrun have once:
    "count_list [Lseek 6012928 None, Set_counter 20, Write (Some 5), Pr_fail] (Close 3) = 0"
    by auto
  have h: "args_num_instances example_args \<noteq> 0" "mmap_ok example_env"
    "0 \<le> temp_dir_mk_ret example_env" "0 \<le> open_fd example_env" "probe_ret example_env = Inr 0"
    "\<forall>j < MAX_FIEMAP_PROCS. keep_spawn example_env j \<and> 0 < fork_ret example_env j"
    by (simp_all add: example_args_def example_env_def)
  have fd: "open_fd example_env = 3"
    by (simp add: example_env_def)
  have run: "stress_fiemap example_platform example_args example_env = Inr (EXIT_SUCCESS, ?acts)"
    by code_simp
  from t h run have "count_list ?acts (Close (open_fd example_env)) = 2"
    by blast
  then have twice: "count_list ?acts (Close 3) = 2"
    by (simp only: fd)
  from wrun once run twice show ?thesis
    by (intro conjI)
qed

section \<open>Properties of the shared counters\<close>

lemma unat_inc:
  fixes x :: "64 word"
  assumes "unat x + 1 < 2 ^ 64"
  shows "unat (x + 1) = unat x + 1"
  using assms unat_add_lem [of x 1] by simp

lemma slot_le_total: "j < MAX_FIEMAP_PROCS \<Longrightarrow> unat (mem j) \<le> slot_total mem"
  unfolding slot_total_def
  by (rule member_le_sum) auto

lemma prefix_le_total: "i \<le> MAX_FIEMAP_PROCS \<Longrightarrow> (\<Sum>j<i. unat (mem j)) \<le> slot_total mem"
  unfolding slot_total_def
  by (rule sum_mono2) auto

lemma slot_total_inc:
  assumes "n < MAX_FIEMAP_PROCS" "slot_total mem + 1 < 2 ^ 64"
  shows "slot_total (mem(n := mem n + 1)) = slot_total mem + 1"
proof -
  have u: "unat (mem n + 1) = unat (mem n) + 1"
    using slot_le_total [OF assms(1), of mem] assms(2) by (intro unat_inc) simp
  have "(\<Sum>j<MAX_FIEMAP_PROCS. unat ((mem(n := mem n + 1)) j)) =
      unat ((mem(n := mem n + 1)) n) + (\<Sum>j \<in> {..<MAX_FIEMAP_PROCS} - {n}. unat ((mem(n := mem n + 1)) j))"
    using assms(1) by (intro sum.remove) auto
  also have "\<dots> = unat (mem n) + 1 + (\<Sum>j \<in> {..<MAX_FIEMAP_PROCS} - {n}. unat (mem j))"
    using u by simp
  also have "\<dots> = (\<Sum>j<MAX_FIEMAP_PROCS. unat (mem j)) + 1"
    using assms(1) sum.remove [of "{..<MAX_FIEMAP_PROCS}" n "\<lambda>j. unat (mem j)"] by simp
  finally show ?thesis by (simp add: slot_total_def)
qed

lemma slot_inc_mono:
  assumes "n < MAX_FIEMAP_PROCS" "slot_total mem + 1 < 2 ^ 64"
  shows "unat (mem j) \<le> unat ((mem(n := mem n + 1)) j)"
proof (cases "j = n")
  case True
  have "unat (mem n + 1) = unat (mem n) + 1"
    using slot_le_total [OF assms(1), of mem] assms(2) by (intro unat_inc) simp
  with True show ?thesis by simp
next
  case False
  then show ?thesis by simp
qed

lemma step_worker_inv:
  assumes inv: "counters_inv s" and bound: "slot_total (slots s) + 1 < 2 ^ 64"
  shows "counters_inv (step (Worker n) s)"
    and "slot_total (slots (step (Worker n) s)) \<le> slot_total (slots s) + 1"
proof -
  show "slot_total (slots (step (Worker n) s)) \<le> slot_total (slots s) + 1"
    using bound by (simp add: slot_total_inc)
  show "counters_inv (step (Worker n) s)"
  proof (cases "n < MAX_FIEMAP_PROCS")
    case False
    with inv show ?thesis by simp
  next
    case True
    let ?m = "slots s" and ?m' = "(slots s)(n := slots s n + 1)"
    have mono: "unat (?m j) \<le> unat (?m' j)" for j
      using True bound by (rule slot_inc_mono)
    have a: "(\<Sum>j<cnt_i s. unat (?m j)) \<le> (\<Sum>j<cnt_i s. unat (?m' j))"
      by (intro sum_mono mono)
    have b: "(\<Sum>j = cnt_i s..<MAX_FIEMAP_PROCS. unat (?m j))
        \<le> (\<Sum>j = cnt_i s..<MAX_FIEMAP_PROCS. unat (?m' j))"
      by (intro sum_mono mono)
    from inv a b True show ?thesis
      unfolding counters_inv_def by (auto intro: order_trans add_left_mono simp del: fun_upd_apply)
  qed
qed

lemma step_driver_inv:
  assumes inv: "counters_inv s" and bound: "slot_total (slots s) < 2 ^ 64"
  shows "counters_inv (step Driver s)"
proof (cases "cnt_i s < MAX_FIEMAP_PROCS")
  case True
  let ?i = "cnt_i s" and ?u = "\<lambda>j. unat (slots s j)"
  from inv have c: "unat (cnt_counter s) \<le> sum ?u {..<?i}"
    and p: "\<forall>p \<in> set (published s). unat p \<le> unat (cnt_counter s) + sum ?u {?i..<MAX_FIEMAP_PROCS}"
    and srt: "sorted (rev (published s))"
    by (simp_all add: counters_inv_def)
  have "sum ?u {..<Suc ?i} \<le> slot_total (slots s)"
    using True by (intro prefix_le_total) simp
  then have small: "unat (cnt_counter s) + ?u ?i < 2 ^ 64"
    using c bound by simp
  then have add: "unat (cnt_counter s + slots s ?i) = unat (cnt_counter s) + ?u ?i"
    by (simp add: unat_add_lem [THEN iffD1])
  have split: "sum ?u {?i..<MAX_FIEMAP_PROCS} = ?u ?i + sum ?u {Suc ?i..<MAX_FIEMAP_PROCS}"
    using True by (rule sum.atLeast_Suc_lessThan)
  have c': "unat (cnt_counter s + slots s ?i) \<le> sum ?u {..<Suc ?i}"
    using c add by simp
  have p': "\<forall>p \<in> set (published s).
      unat p \<le> unat (cnt_counter s + slots s ?i) + sum ?u {Suc ?i..<MAX_FIEMAP_PROCS}"
    using p add split by (simp add: add.assoc)
  from True c' p' srt show ?thesis
    by (simp add: counters_inv_def)
next
  case False
  with inv have i: "cnt_i s = MAX_FIEMAP_PROCS"
    by (simp add: counters_inv_def)
  let ?u = "\<lambda>j. unat (slots s j)"
  from inv i have c: "unat (cnt_counter s) \<le> sum ?u {..<MAX_FIEMAP_PROCS}"
    and p: "\<forall>p \<in> set (published s). unat p \<le> unat (cnt_counter s)"
    and srt: "sorted (rev (published s))"
    by (simp_all add: counters_inv_def)
  have le: "\<forall>p \<in> set (published s). p \<le> cnt_counter s"
    using p by (simp add: word_le_nat_alt)
  have srt': "sorted (rev (cnt_counter s # published s))"
    using srt le by (simp add: sorted_append)
  have all: "sum ?u {0..<MAX_FIEMAP_PROCS} = sum ?u {..<MAX_FIEMAP_PROCS}"
    by (simp add: atLeast0LessThan)
  have p': "\<forall>p \<in> set (cnt_counter s # published s). unat p \<le> sum ?u {0..<MAX_FIEMAP_PROCS}"
    using p c unfolding all by (auto intro: order_trans)
  from False srt' p' show ?thesis
    by (simp add: counters_inv_def)
qed

lemma step_driver_slots [simp]: "slots (step Driver s) = slots s"
  by simp

lemma fold_step_inv:
  "counters_inv s \<Longrightarrow> slot_total (slots s) + length (filter is_Worker sched) < 2 ^ 64 \<Longrightarrow>
   counters_inv (fold step sched s)"
proof (induction sched arbitrary: s)
  case Nil
  then show ?case by simp
next
  case (Cons x sched)
  show ?case
  proof (cases x)
    case (Worker n)
    from Cons.prems(2) Worker have b: "slot_total (slots s) + 1 < 2 ^ 64"
      by simp
    note w = step_worker_inv [OF Cons.prems(1) b, of n]
    have "slot_total (slots (step (Worker n) s)) + length (filter is_Worker sched) < 2 ^ 64"
      using w(2) Cons.prems(2) Worker by simp
    with w(1) have "counters_inv (fold step sched (step (Worker n) s))"
      by (rule Cons.IH)
    with Worker show ?thesis by simp
  next
    case Driver
    from Cons.prems(2) have b: "slot_total (slots s) < 2 ^ 64"
      by simp
    have "counters_inv (step Driver s)"
      using Cons.prems(1) b by (rule step_driver_inv)
    moreover have "slot_total (slots (step Driver s)) + length (filter is_Worker sched) < 2 ^ 64"
      using Cons.prems(2) Driver by (simp del: step.simps)
    ultimately have "counters_inv (fold step sched (step Driver s))"
      by (rule Cons.IH)
    with Driver show ?thesis by simp
  qed
qed

lemma counters_inv_init: "counters_inv shared_init" and slot_total_init: "slot_total (slots shared_init) = 0"
  by (simp_all add: counters_inv_def shared_init_def slot_total_def)

lemma fold_step_slots:
  "slot_total (slots s) + length (filter is_Worker sched) < 2 ^ 64 \<Longrightarrow> n < MAX_FIEMAP_PROCS \<Longrightarrow>
   unat (slots (fold step sched s) n) = unat (slots s n) + count_list sched (Worker n)"
proof (induction sched arbitrary: s)
  case Nil
  then show ?case by simp
next
  case (Cons x sched)
  show ?case
  proof (cases x)
    case Driver
    have "unat (slots (fold step sched (step Driver s)) n) =
        unat (slots (step Driver s) n) + count_list sched (Worker n)"
      using Cons.prems Driver by (intro Cons.IH) (simp_all del: step.simps)
    with Driver show ?thesis by (simp del: step.simps)
  next
    case (Worker k)
    from Cons.prems(1) Worker have b: "slot_total (slots s) + 1 < 2 ^ 64"
      by simp
    show ?thesis
    proof (cases "k < MAX_FIEMAP_PROCS")
      case False
      then have same: "step (Worker k) s = s"
        by simp
      have "unat (slots (fold step sched s) n) = unat (slots s n) + count_list sched (Worker n)"
        using Cons.prems Worker by (intro Cons.IH) simp_all
      with Worker same False Cons.prems(2) show ?thesis by auto
    next
      case True
      let ?s' = "step (Worker k) s"
      have tot: "slot_total (slots ?s') = slot_total (slots s) + 1"
        using True b by (simp add: slot_total_inc)
      have one: "unat (slots s k + 1) = unat (slots s k) + 1"
        using slot_le_total [OF True, of "slots s"] b by (intro unat_inc) simp
      have here: "unat (slots ?s' n) = unat (slots s n) + (if k = n then 1 else 0)"
        using True one by auto
      have "unat (slots (fold step sched ?s') n) = unat (slots ?s' n) + count_list sched (Worker n)"
        using Cons.prems Worker tot by (intro Cons.IH) simp_all
      with Worker here show ?thesis by (simp del: step.simps)
    qed
  qed
qed

text \<open>
  C8. In every interleaving of the workers' increments with the driver's reads, where a
  read and a write of one slot are atomic, and as long as fewer than \<open>2 ^ 64\<close> increments
  have happened (the counters are 64 bits wide), each slot holds the number of increments
  of its worker, so that no slot ever decreases, and the values that the driver gives to
  \<open>set_counter\<close> never decrease.
\<close>

theorem aggregate_is_monotone:
  assumes "length (filter is_Worker sched) < 2 ^ 64"
  shows "sorted (rev (published (fold step sched shared_init)))
    \<and> (\<forall>n < MAX_FIEMAP_PROCS.
         unat (slots (fold step sched shared_init) n) = count_list sched (Worker n))"
proof -
  have "counters_inv (fold step sched shared_init)"
    using counters_inv_init assms by (intro fold_step_inv) (simp_all add: slot_total_init)
  then have "sorted (rev (published (fold step sched shared_init)))"
    by (simp add: counters_inv_def)
  moreover have "unat (slots (fold step sched shared_init) n) = count_list sched (Worker n)"
    if "n < MAX_FIEMAP_PROCS" for n
    using fold_step_slots [of shared_init sched n] assms that
    by (simp add: slot_total_init) (simp add: shared_init_def)
  ultimately show ?thesis by blast
qed

theorem aggregate_is_monotone_witness:
  "length (filter is_Worker example_sched) < 2 ^ 64
   \<and> published (fold step example_sched shared_init) = [4, 2]
   \<and> sorted (rev [4, 2 :: 64 word])
   \<and> count_list example_sched (Worker 3) = 2
   \<and> unat (slots (fold step example_sched shared_init) 3) = 2"
proof -
  have h: "length (filter is_Worker example_sched) < 2 ^ 64"
    by (simp add: example_sched_def)
  have p: "published (fold step example_sched shared_init) = [4, 2]"
    by code_simp
  from aggregate_is_monotone [OF h] p have m: "sorted (rev [4, 2 :: 64 word])"
    by simp
  have c: "count_list example_sched (Worker 3) = 2"
    by (simp add: example_sched_def)
  from aggregate_is_monotone [OF h] c
  have s: "unat (slots (fold step example_sched shared_init) 3) = 2"
    by simp
  from h p m c s show ?thesis by (intro conjI)
qed

lemma count_loop_sum:
  "count_loop counters 0 0 = counters 0 + counters 1 + counters 2 + counters 3"
  by (simp add: count_loop.simps numeral_eq_Suc)









lemma driver_steps_publish_count_loop:
  "published (fold step [Driver, Driver, Driver, Driver, Driver]
      \<lparr>slots = mem, cnt_i = 0, cnt_counter = 0, published = ps\<rparr>) =
    count_loop mem 0 0 # ps"
  by (simp add: count_loop_sum numeral_2_eq_2 numeral_3_eq_3)

section \<open>Properties of the query worker\<close>

lemma ioctl_body_populate:
  assumes "calloc_ok e" "discover_ret e = Inr m" "keep_mid e" "realloc_ok e"
  shows "ioctl_body args n c e =
    (case populate_ret e of
       Inl err \<Rightarrow>
         (False, c,
          [Calloc True, Ioctl fiemap_whole_file (Inr m), Realloc True,
           Ioctl (fiemap_whole_file\<lparr>fm_extent_count := m\<rparr>) (Inl err), Pr_fail, Free])
     | Inr m' \<Rightarrow>
         (True, if c > COUNT_MAX then 0 else c + 1,
          [Calloc True, Ioctl fiemap_whole_file (Inr m), Realloc True,
           Ioctl (fiemap_whole_file\<lparr>fm_extent_count := m\<rparr>) (Inr m'), Free, Counter_inc n]
            @ (if c > COUNT_MAX then [Fdatasync] else [])))"
  using assms
  by (simp add: ioctl_body_def Let_def fiemap_whole_file_def split: sum.splits)

text \<open>
  C1, as the code has it. In a cycle that reaches the populate call, the call asks for
  exactly as many extents as the discovery call reported, with \<open>fm_mapped_extents\<close> reset
  to zero. The count that the populate call reports is not looked at: whatever it is, a
  populate call that returns without error completes the cycle, the counter is incremented
  and the loop goes on to its condition. Only a populate call that returns an error is
  reported and ends the loop.
\<close>

theorem populate_requests_discovered_count:
  assumes "calloc_ok e" and "discover_ret e = Inr m" and "keep_mid e" and "realloc_ok e"
  shows "(\<forall>m'. populate_ret e = Inr m' \<longrightarrow>
      ioctl_loop args n c (e # es) =
        (let acts = [Calloc True, Ioctl fiemap_whole_file (Inr m), Realloc True,
                     Ioctl (fiemap_whole_file\<lparr>fm_extent_count := m\<rparr>) (Inr m'),
                     Free, Counter_inc n] @ (if c > COUNT_MAX then [Fdatasync] else [])
         in if keep_loop e then
              (case ioctl_loop args n (if c > COUNT_MAX then 0 else c + 1) es of
                 Inl f \<Rightarrow> Inl f
               | Inr acts' \<Rightarrow> Inr (acts @ acts'))
            else Inr acts))
   \<and> (\<forall>err. populate_ret e = Inl err \<longrightarrow>
        ioctl_loop args n c (e # es) =
          Inr [Calloc True, Ioctl fiemap_whole_file (Inr m), Realloc True,
               Ioctl (fiemap_whole_file\<lparr>fm_extent_count := m\<rparr>) (Inl err), Pr_fail, Free])"
proof (intro conjI allI impI)
  fix m'
  assume "populate_ret e = Inr m'"
  then have "ioctl_body args n c e =
      (True, if c > COUNT_MAX then 0 else c + 1,
       [Calloc True, Ioctl fiemap_whole_file (Inr m), Realloc True,
        Ioctl (fiemap_whole_file\<lparr>fm_extent_count := m\<rparr>) (Inr m'), Free, Counter_inc n]
         @ (if c > COUNT_MAX then [Fdatasync] else []))"
    by (simp add: ioctl_body_populate [OF assms])
  then show "ioctl_loop args n c (e # es) =
        (let acts = [Calloc True, Ioctl fiemap_whole_file (Inr m), Realloc True,
                     Ioctl (fiemap_whole_file\<lparr>fm_extent_count := m\<rparr>) (Inr m'),
                     Free, Counter_inc n] @ (if c > COUNT_MAX then [Fdatasync] else [])
         in if keep_loop e then
              (case ioctl_loop args n (if c > COUNT_MAX then 0 else c + 1) es of
                 Inl f \<Rightarrow> Inl f
               | Inr acts' \<Rightarrow> Inr (acts @ acts'))
            else Inr acts)"
    by (simp add: Let_def split: sum.splits)
next
  fix err
  assume "populate_ret e = Inl err"
  then have "ioctl_body args n c e =
      (False, c,
       [Calloc True, Ioctl fiemap_whole_file (Inr m), Realloc True,
        Ioctl (fiemap_whole_file\<lparr>fm_extent_count := m\<rparr>) (Inl err), Pr_fail, Free])"
    by (simp add: ioctl_body_populate [OF assms])
  then show "ioctl_loop args n c (e # es) =
          Inr [Calloc True, Ioctl fiemap_whole_file (Inr m), Realloc True,
               Ioctl (fiemap_whole_file\<lparr>fm_extent_count := m\<rparr>) (Inl err), Pr_fail, Free]"
    by simp
qed

theorem populate_requests_discovered_count_witness:
  "calloc_ok example_cycle \<and> discover_ret example_cycle = Inr 3 \<and> keep_mid example_cycle
   \<and> realloc_ok example_cycle \<and> populate_ret example_cycle = Inr 3
   \<and> ioctl_loop example_args 0 7 [example_cycle\<lparr>keep_loop := False\<rparr>] =
       Inr [Calloc True, Ioctl fiemap_whole_file (Inr 3), Realloc True,
            Ioctl \<lparr>fm_length = NOT 0, fm_mapped_extents = 0, fm_extent_count = 3\<rparr> (Inr 3),
            Free, Counter_inc 0]
   \<and> ioctl_loop example_args 0 7 [example_cycle\<lparr>populate_ret := Inl 5\<rparr>] =
       Inr [Calloc True, Ioctl fiemap_whole_file (Inr 3), Realloc True,
            Ioctl \<lparr>fm_length = NOT 0, fm_mapped_extents = 0, fm_extent_count = 3\<rparr> (Inl 5),
            Pr_fail, Free]"
proof -
  have h: "calloc_ok example_cycle" "discover_ret example_cycle = Inr 3" "keep_mid example_cycle"
    "realloc_ok example_cycle" "populate_ret example_cycle = Inr 3"
    by (simp_all add: example_cycle_def)
  have ok: "ioctl_loop example_args 0 7 [example_cycle\<lparr>keep_loop := False\<rparr>] =
       Inr [Calloc True, Ioctl fiemap_whole_file (Inr 3), Realloc True,
            Ioctl \<lparr>fm_length = NOT 0, fm_mapped_extents = 0, fm_extent_count = 3\<rparr> (Inr 3),
            Free, Counter_inc 0]"
    using populate_requests_discovered_count [where e = "example_cycle\<lparr>keep_loop := False\<rparr>"
        and m = 3 and args = example_args and n = 0 and c = 7 and es = "[]"] h
    by (simp add: fiemap_whole_file_def)
  have bad: "ioctl_loop example_args 0 7 [example_cycle\<lparr>populate_ret := Inl 5\<rparr>] =
       Inr [Calloc True, Ioctl fiemap_whole_file (Inr 3), Realloc True,
            Ioctl \<lparr>fm_length = NOT 0, fm_mapped_extents = 0, fm_extent_count = 3\<rparr> (Inl 5),
            Pr_fail, Free]"
    using populate_requests_discovered_count [where e = "example_cycle\<lparr>populate_ret := Inl 5\<rparr>"
        and m = 3 and args = example_args and n = 0 and c = 7 and es = "[]"] h
    by (simp add: fiemap_whole_file_def)
  from h ok bad show ?thesis
    by (intro conjI)
qed

text \<open>
  C1, as the spec has it, fails: the discovery call reports no extent, so the populate
  call asks for none; the kernel then reports two, and the worker counts the cycle and
  runs the next one without a report.
\<close>

theorem populate_overrun_counterexample:
  "stress_fiemap_ioctl example_args 0 7
       [example_cycle\<lparr>discover_ret := Inr 0, populate_ret := Inr 2\<rparr>,
        example_cycle\<lparr>keep_loop := False\<rparr>] =
     Inr [Calloc True, Ioctl fiemap_whole_file (Inr 0), Realloc True,
          Ioctl \<lparr>fm_length = NOT 0, fm_mapped_extents = 0, fm_extent_count = 0\<rparr> (Inr 2),
          Free, Counter_inc 0,
          Calloc True, Ioctl fiemap_whole_file (Inr 3), Realloc True,
          Ioctl \<lparr>fm_length = NOT 0, fm_mapped_extents = 0, fm_extent_count = 3\<rparr> (Inr 3),
          Free, Counter_inc 0]"
  by code_simp

end
